theory Spec2Isabelle
  imports Main "HOL-Library.Word" "HOL-Library.Sublist" "HOL-Library.AList"
begin

section \<open>JavaScript strings and values\<close>

text \<open>
  A JavaScript string is a sequence of UTF-16 code units; \<open>length\<close> counts code units,
  as \<^verbatim>\<open>.length\<close> does. \<open>js\<close> embeds an ASCII literal of the source.
\<close>

type_synonym code_unit = "16 word"
type_synonym jsstring = "code_unit list"

definition js :: "string \<Rightarrow> jsstring" where
  "js s = map of_char s"

text \<open>
  The values that reach the form pipeline: what \<^verbatim>\<open>JSON.parse\<close> can build, plus
  \<^verbatim>\<open>undefined\<close> (an absent property). A number is kept as the text that
  \<^verbatim>\<open>String(n)\<close> gives for it, which is all the code observes of a number
  (its truthiness and its text); both zeros have the text \<^verbatim>\<open>0\<close>.
  An object is the list of its own properties.
\<close>

datatype jsval =
    JUndefined
  | JNull
  | JBool bool
  | JNumber jsstring
  | JString jsstring
  | JArray "jsval list"
  | JObject "(jsstring \<times> jsval) list"

text \<open>
  An exception object; only its \<^verbatim>\<open>message\<close> is ever read. The engine and the two
  packages throw \<^verbatim>\<open>Error\<close> objects, as the handler itself does.
\<close>

datatype exn = Error (message: jsstring)

text \<open>The failures the engine itself raises; their message text is the engine's.\<close>

datatype engine_error =
    Cannot_read_property jsval jsstring
  | Not_a_function jsstring
  | Cannot_convert_to_primitive

record transport_config =
  service :: jsstring
  auth_user :: "jsstring option"
  auth_pass :: "jsstring option"

record mail_options =
  mail_from :: "jsstring option"
  mail_to :: jsstring
  mail_subject :: jsstring
  mail_text :: jsstring

text \<open>
  What the handler calls but the repository does not define: the engine's built-ins
  and the two packages \<^verbatim>\<open>validator\<close> and \<^verbatim>\<open>nodemailer\<close>. Each may throw
  (\<open>Inl\<close>). A transporter is its \<^verbatim>\<open>sendMail\<close> method.
\<close>

record runtime =
  engine_message :: "engine_error \<Rightarrow> jsstring"
  JSON_parse :: "jsstring \<Rightarrow> exn + jsval"
  URLSearchParams_get :: "jsstring option \<Rightarrow> jsstring \<Rightarrow> jsstring option"
  validator_isEmail :: "jsval \<Rightarrow> exn + bool"
  validator_isMobilePhone :: "jsval \<Rightarrow> exn + bool"
  nodemailer_createTransporter ::
    "transport_config \<Rightarrow> exn + (mail_options \<Rightarrow> exn + jsval)"

fun truthy :: "jsval \<Rightarrow> bool" where
  "truthy JUndefined = False"
| "truthy JNull = False"
| "truthy (JBool b) = b"
| "truthy (JNumber t) = (t \<noteq> js ''0'' \<and> t \<noteq> js ''NaN'')"
| "truthy (JString s) = (s \<noteq> [])"
| "truthy (JArray vs) = True"
| "truthy (JObject ps) = True"

text \<open>
  \<^verbatim>\<open>v.k\<close> for a property name \<open>k\<close> that no prototype of these values defines
  (\<^verbatim>\<open>name\<close>, \<^verbatim>\<open>email\<close>, \<^verbatim>\<open>phone\<close>, \<^verbatim>\<open>needs\<close>, \<^verbatim>\<open>messageId\<close>):
  a TypeError on \<^verbatim>\<open>null\<close> and \<^verbatim>\<open>undefined\<close>, the own property of an object,
  \<^verbatim>\<open>undefined\<close> otherwise.
\<close>

fun get_prop :: "runtime \<Rightarrow> jsval \<Rightarrow> jsstring \<Rightarrow> exn + jsval" where
  "get_prop rt JUndefined k = Inl (Error (engine_message rt (Cannot_read_property JUndefined k)))"
| "get_prop rt JNull k = Inl (Error (engine_message rt (Cannot_read_property JNull k)))"
| "get_prop rt (JObject ps) k = Inr (case map_of ps k of None \<Rightarrow> JUndefined | Some v \<Rightarrow> v)"
| "get_prop rt v k = Inr JUndefined"

text \<open>\<^verbatim>\<open>String.prototype.trim\<close>: white space and line terminators of ECMAScript.\<close>

definition is_ws :: "code_unit \<Rightarrow> bool" where
  "is_ws c \<longleftrightarrow>
     c \<in> {0x09, 0x0A, 0x0B, 0x0C, 0x0D, 0x20, 0xA0, 0x1680, 0x2028, 0x2029, 0x202F,
          0x205F, 0x3000, 0xFEFF} \<or> (0x2000 \<le> c \<and> c \<le> 0x200A)"

definition trim :: "jsstring \<Rightarrow> jsstring" where
  "trim s = rev (dropWhile is_ws (rev (dropWhile is_ws s)))"

text \<open>
  \<^verbatim>\<open>v.trim()\<close>: only a string has the method. On any other value the property is
  absent, or (on an object of parsed JSON) not callable.
\<close>

fun call_trim :: "runtime \<Rightarrow> jsval \<Rightarrow> exn + jsstring" where
  "call_trim rt (JString s) = Inr (trim s)"
| "call_trim rt JUndefined =
     Inl (Error (engine_message rt (Cannot_read_property JUndefined (js ''trim''))))"
| "call_trim rt JNull =
     Inl (Error (engine_message rt (Cannot_read_property JNull (js ''trim''))))"
| "call_trim rt v = Inl (Error (engine_message rt (Not_a_function (js ''trim''))))"

section \<open>Validation\<close>

definition name_error :: jsstring where
  "name_error = js ''Name is required and must be at least 2 characters''"

definition email_error :: jsstring where
  "email_error = js ''Valid email is required''"

definition phone_error :: jsstring where
  "phone_error = js ''Valid phone number is required''"

text \<open>\<^verbatim>\<open>!data.name || data.name.trim().length < 2\<close>\<close>

definition name_rule :: "runtime \<Rightarrow> jsval \<Rightarrow> exn + bool" where
  "name_rule rt data =
     (case get_prop rt data (js ''name'') of
        Inl e \<Rightarrow> Inl e
      | Inr n \<Rightarrow>
          if \<not> truthy n then Inr True
          else (case call_trim rt n of
                  Inl e \<Rightarrow> Inl e
                | Inr t \<Rightarrow> Inr (length t < 2)))"

text \<open>\<^verbatim>\<open>!data.email || !validator.isEmail(data.email)\<close>\<close>

definition email_rule :: "runtime \<Rightarrow> jsval \<Rightarrow> exn + bool" where
  "email_rule rt data =
     (case get_prop rt data (js ''email'') of
        Inl e \<Rightarrow> Inl e
      | Inr m \<Rightarrow>
          if \<not> truthy m then Inr True
          else (case validator_isEmail rt m of
                  Inl e \<Rightarrow> Inl e
                | Inr ok \<Rightarrow> Inr (\<not> ok)))"

text \<open>\<^verbatim>\<open>!data.phone || !validator.isMobilePhone(data.phone, "any", {strictMode: false})\<close>\<close>

definition phone_rule :: "runtime \<Rightarrow> jsval \<Rightarrow> exn + bool" where
  "phone_rule rt data =
     (case get_prop rt data (js ''phone'') of
        Inl e \<Rightarrow> Inl e
      | Inr p \<Rightarrow>
          if \<not> truthy p then Inr True
          else (case validator_isMobilePhone rt p of
                  Inl e \<Rightarrow> Inl e
                | Inr ok \<Rightarrow> Inr (\<not> ok)))"

text \<open>
  \<^verbatim>\<open>validateFormData\<close>: the three tests run in the source's order, each pushing its
  message; an exception in one of them leaves the function at once.
\<close>

definition validateFormData :: "runtime \<Rightarrow> jsval \<Rightarrow> exn + jsstring list" where
  "validateFormData rt data =
     (case name_rule rt data of
        Inl e \<Rightarrow> Inl e
      | Inr bad_name \<Rightarrow>
          let errors1 = (if bad_name then [name_error] else []) in
          (case email_rule rt data of
             Inl e \<Rightarrow> Inl e
           | Inr bad_email \<Rightarrow>
               let errors2 = (if bad_email then errors1 @ [email_error] else errors1) in
               (case phone_rule rt data of
                  Inl e \<Rightarrow> Inl e
                | Inr bad_phone \<Rightarrow>
                    Inr (if bad_phone then errors2 @ [phone_error] else errors2))))"

section \<open>String built-ins\<close>

text \<open>\<^verbatim>\<open>s.includes(sub)\<close>\<close>

fun includes_js :: "jsstring \<Rightarrow> jsstring \<Rightarrow> bool" where
  "includes_js [] sub = (sub = [])"
| "includes_js (c # cs) sub = (prefix sub (c # cs) \<or> includes_js cs sub)"

text \<open>\<^verbatim>\<open>s.indexOf(sub)\<close> and \<^verbatim>\<open>s.lastIndexOf(sub)\<close>: \<open>-1\<close> when \<open>sub\<close> does not occur.\<close>

fun indexOf :: "jsstring \<Rightarrow> jsstring \<Rightarrow> int" where
  "indexOf [] sub = (if sub = [] then 0 else - 1)"
| "indexOf (c # cs) sub =
     (if prefix sub (c # cs) then 0
      else (let r = indexOf cs sub in if r < 0 then - 1 else r + 1))"

fun lastIndexOf :: "jsstring \<Rightarrow> jsstring \<Rightarrow> int" where
  "lastIndexOf [] sub = (if sub = [] then 0 else - 1)"
| "lastIndexOf (c # cs) sub =
     (let r = lastIndexOf cs sub in
      if 0 \<le> r then r + 1 else if prefix sub (c # cs) then 0 else - 1)"

text \<open>
  \<^verbatim>\<open>s.substring(a, b)\<close>: both indices are clamped to the string, and swapped when
  the first is the larger.
\<close>

definition substring :: "jsstring \<Rightarrow> int \<Rightarrow> int \<Rightarrow> jsstring" where
  "substring s a b =
     (let len = int (length s);
          a' = min (max a 0) len;
          b' = min (max b 0) len;
          lo = min a' b';
          hi = max a' b'
      in take (nat (hi - lo)) (drop (nat lo) s))"

text \<open>
  \<^verbatim>\<open>s.split(sep)\<close> with a string separator: the pieces between the occurrences of
  \<open>sep\<close>, found from the left without overlap; an empty separator splits into code units.
\<close>

function split_js :: "jsstring \<Rightarrow> jsstring \<Rightarrow> jsstring list" where
  "split_js sep s =
     (if sep = [] then map (\<lambda>c. [c]) s
      else if s = [] then [[]]
      else if prefix sep s then [] # split_js sep (drop (length sep) s)
      else (case split_js sep (tl s) of
              [] \<Rightarrow> [[hd s]]
            | p # ps \<Rightarrow> (hd s # p) # ps))"
  by pat_completeness auto
termination
  by (relation "measure (\<lambda>(sep, s). length s)") auto

declare split_js.simps [simp del]

text \<open>\<^verbatim>\<open>s.padStart(n, pad)\<close>\<close>

definition padStart :: "nat \<Rightarrow> jsstring \<Rightarrow> jsstring \<Rightarrow> jsstring" where
  "padStart n pad s =
     (if n \<le> length s \<or> pad = [] then s
      else take (n - length s) (concat (replicate (n - length s) pad)) @ s)"

text \<open>\<^verbatim>\<open>String(n)\<close> for an integer \<open>n\<close> (of magnitude below \<open>10^21\<close>): its decimal digits.\<close>

function digits :: "nat \<Rightarrow> jsstring" where
  "digits n = (if n < 10 then [0x30 + of_nat n] else digits (n div 10) @ [0x30 + of_nat (n mod 10)])"
  by pat_completeness auto
termination
  by (relation "measure id") auto

declare digits.simps [simp del]

definition String_of_int :: "int \<Rightarrow> jsstring" where
  "String_of_int i = (if i < 0 then 0x2D # digits (nat (- i)) else digits (nat i))"

text \<open>
  The conversion of a template literal, \<^verbatim>\<open>`${v}`\<close>. An array joins its elements with
  commas, \<^verbatim>\<open>null\<close> and \<^verbatim>\<open>undefined\<close> elements giving nothing. An object of parsed
  JSON has no callable \<^verbatim>\<open>toString\<close> of its own: with an own property of that name
  the conversion fails, without one \<^verbatim>\<open>Object.prototype.toString\<close> answers.
\<close>

fun To_String :: "runtime \<Rightarrow> jsval \<Rightarrow> exn + jsstring"
  and join_elements :: "runtime \<Rightarrow> jsval list \<Rightarrow> exn + jsstring"
where
  "To_String rt JUndefined = Inr (js ''undefined'')"
| "To_String rt JNull = Inr (js ''null'')"
| "To_String rt (JBool b) = Inr (if b then js ''true'' else js ''false'')"
| "To_String rt (JNumber t) = Inr t"
| "To_String rt (JString s) = Inr s"
| "To_String rt (JArray vs) = join_elements rt vs"
| "To_String rt (JObject ps) =
     (if map_of ps (js ''toString'') = None then Inr (js ''[object Object]'')
      else Inl (Error (engine_message rt Cannot_convert_to_primitive)))"
| "join_elements rt [] = Inr []"
| "join_elements rt (v # vs) =
     (case (if v = JNull \<or> v = JUndefined then Inr [] else To_String rt v) of
        Inl e \<Rightarrow> Inl e
      | Inr s \<Rightarrow>
          if vs = [] then Inr s
          else (case join_elements rt vs of
                  Inl e \<Rightarrow> Inl e
                | Inr t \<Rightarrow> Inr (s @ js '','' @ t)))"

section \<open>The multipart parser\<close>

definition crlf :: jsstring where
  "crlf = [0x0D, 0x0A]"

definition quote :: code_unit where
  "quote = 0x22"

text \<open>
  \<^verbatim>\<open>part.match(/name="([^"]+)"/)\<close>, the captured group of the leftmost match: after
  \<^verbatim>\<open>name="\<close> the class takes every code unit up to the next quote, and the match
  needs at least one of them and the closing quote.
\<close>

fun match_name :: "jsstring \<Rightarrow> jsstring option" where
  "match_name [] = None"
| "match_name (c # cs) =
     (if prefix (js ''name='' @ [quote]) (c # cs) then
        (let rest = drop 6 (c # cs);
             fieldName = takeWhile (\<lambda>x. x \<noteq> quote) rest
         in if fieldName \<noteq> [] \<and> length fieldName < length rest then Some fieldName
            else match_name cs)
      else match_name cs)"

text \<open>
  \<^verbatim>\<open>formData[fieldName] = v\<close> on an ordinary object: an own property is written,
  except under the name \<^verbatim>\<open>__proto__\<close>, whose setter ignores a string.
\<close>

definition set_prop :: "(jsstring \<times> jsval) list \<Rightarrow> jsstring \<Rightarrow> jsval \<Rightarrow> (jsstring \<times> jsval) list" where
  "set_prop ps k v = (if k = js ''__proto__'' then ps else AList.update k v ps)"

text \<open>The body of the loop over the parts.\<close>

definition parse_part :: "(jsstring \<times> jsval) list \<Rightarrow> jsstring \<Rightarrow> (jsstring \<times> jsval) list" where
  "parse_part formData part =
     (if includes_js part (js ''Content-Disposition: form-data'') then
        (case match_name part of
           None \<Rightarrow> formData
         | Some fieldName \<Rightarrow>
             (let valueStart = indexOf part (crlf @ crlf) + 4;
                  valueEnd = lastIndexOf part crlf
              in if valueStart < valueEnd
                 then set_prop formData fieldName
                        (JString (trim (substring part valueStart valueEnd)))
                 else formData))
      else formData)"

definition parseMultipartFormData :: "jsstring \<Rightarrow> jsstring \<Rightarrow> jsval" where
  "parseMultipartFormData body boundary =
     (let parts = split_js (js ''--'' @ boundary) body
      in JObject (foldl parse_part [] parts))"

section \<open>The message formatter\<close>

text \<open>The fields of \<^verbatim>\<open>new Date()\<close> that the subject reads, in local time.\<close>

record local_time =
  getDate :: int
  getMonth :: int
  getFullYear :: int
  getHours :: int
  getMinutes :: int

text \<open>The ranges a \<^verbatim>\<open>Date\<close> keeps its fields in.\<close>

definition valid_time :: "local_time \<Rightarrow> bool" where
  "valid_time now \<longleftrightarrow>
     1 \<le> getDate now \<and> getDate now \<le> 31 \<and>
     0 \<le> getMonth now \<and> getMonth now \<le> 11 \<and>
     - 271821 \<le> getFullYear now \<and> getFullYear now \<le> 275760 \<and>
     0 \<le> getHours now \<and> getHours now \<le> 23 \<and>
     0 \<le> getMinutes now \<and> getMinutes now \<le> 59"

definition subject_prefix :: jsstring where
  "subject_prefix = js ''New Form Submission - Insurance Quote Request #''"

definition buildEmailSubject :: "local_time \<Rightarrow> jsstring" where
  "buildEmailSubject now =
     (let day = padStart 2 (js ''0'') (String_of_int (getDate now));
          month = padStart 2 (js ''0'') (String_of_int (getMonth now + 1));
          year = String_of_int (getFullYear now);
          hours = padStart 2 (js ''0'') (String_of_int (getHours now));
          minutes = padStart 2 (js ''0'') (String_of_int (getMinutes now));
          timestamp = day @ month @ year @ hours @ minutes
      in subject_prefix @ timestamp)"

text \<open>\<^verbatim>\<open>formData.needs || "Not specified"\<close>\<close>

definition needs_or_default :: "jsval \<Rightarrow> jsval" where
  "needs_or_default needs = (if truthy needs then needs else JString (js ''Not specified''))"

text \<open>
  \<^verbatim>\<open>buildEmailBody\<close>: the template literal reads and converts the four fields in
  order, then the whole text is trimmed.
\<close>

definition buildEmailBody :: "runtime \<Rightarrow> jsval \<Rightarrow> exn + jsstring" where
  "buildEmailBody rt formData =
     (case get_prop rt formData (js ''name'') of Inl e \<Rightarrow> Inl e | Inr n \<Rightarrow>
     (case To_String rt n of Inl e \<Rightarrow> Inl e | Inr name \<Rightarrow>
     (case get_prop rt formData (js ''email'') of Inl e \<Rightarrow> Inl e | Inr m \<Rightarrow>
     (case To_String rt m of Inl e \<Rightarrow> Inl e | Inr email \<Rightarrow>
     (case get_prop rt formData (js ''phone'') of Inl e \<Rightarrow> Inl e | Inr p \<Rightarrow>
     (case To_String rt p of Inl e \<Rightarrow> Inl e | Inr phone \<Rightarrow>
     (case get_prop rt formData (js ''needs'') of Inl e \<Rightarrow> Inl e | Inr d \<Rightarrow>
     (case To_String rt (needs_or_default d) of Inl e \<Rightarrow> Inl e | Inr needs \<Rightarrow>
        Inr (trim
          (js ''\<newline>New Form Submission Received\<newline>\<newline>Details:\<newline>Name: '' @ name @
           js ''\<newline>Email: '' @ email @
           js ''\<newline>Phone: '' @ phone @
           js ''\<newline>Insurance Needs: '' @ needs @
           js ''\<newline>\<newline>Please follow up with the customer as needed.\<newline>  ''))))))))))"

section \<open>The handler\<close>

text \<open>The part of \<^verbatim>\<open>process.env\<close> that is read; \<open>None\<close> is an unset variable.\<close>

record env =
  MAIL_USERNAME :: "jsstring option"
  MAIL_PASSWORD :: "jsstring option"
  EMAIL_TO :: "jsstring option"
  NODE_ENV :: "jsstring option"

text \<open>
  The request: \<open>content_type\<close> is \<^verbatim>\<open>event.headers["content-type"]\<close>, \<open>event_body\<close> is
  \<^verbatim>\<open>event.body\<close>, \<^verbatim>\<open>null\<close> when the request has none.
\<close>

record event =
  httpMethod :: jsstring
  content_type :: "jsstring option"
  event_body :: "jsstring option"

text \<open>
  A response body is the empty text of the preflight answer or the text that
  \<^verbatim>\<open>JSON.stringify\<close> writes for an object literal, kept as its members in order.
  \<^verbatim>\<open>JSON.stringify\<close> leaves out a member whose value is \<^verbatim>\<open>undefined\<close>.
\<close>

datatype body = Text jsstring | Json "(jsstring \<times> jsval) list"

definition JSON_stringify :: "(jsstring \<times> jsval) list \<Rightarrow> body" where
  "JSON_stringify members = Json (filter (\<lambda>(k, v). v \<noteq> JUndefined) members)"

record response =
  statusCode :: nat
  headers :: "(jsstring \<times> jsstring) list"
  response_body :: body

text \<open>A variable of the environment is falsy when unset or empty.\<close>

definition is_set :: "jsstring option \<Rightarrow> bool" where
  "is_set x = (case x of None \<Rightarrow> False | Some s \<Rightarrow> s \<noteq> [])"

definition json_headers :: "(jsstring \<times> jsstring) list" where
  "json_headers =
     [(js ''Access-Control-Allow-Origin'', js ''*''),
      (js ''Content-Type'', js ''application/json'')]"

definition options_response :: response where
  "options_response =
     \<lparr>statusCode = 200,
      headers =
        [(js ''Access-Control-Allow-Origin'', js ''*''),
         (js ''Access-Control-Allow-Methods'', js ''GET, POST, PUT, DELETE, OPTIONS''),
         (js ''Access-Control-Allow-Headers'', js ''Content-Type, Authorization'')],
      response_body = Text []\<rparr>"

definition method_not_allowed_response :: response where
  "method_not_allowed_response =
     \<lparr>statusCode = 405, headers = json_headers,
      response_body = JSON_stringify
        [(js ''status'', JString (js ''error'')),
         (js ''message'', JString (js ''Method not allowed''))]\<rparr>"

definition validation_response :: "jsstring list \<Rightarrow> response" where
  "validation_response validationErrors =
     \<lparr>statusCode = 400, headers = json_headers,
      response_body = JSON_stringify
        [(js ''status'', JString (js ''error'')),
         (js ''message'', JString (js ''Validation errors'')),
         (js ''errors'', JArray (map JString validationErrors))]\<rparr>"

definition success_response :: response where
  "success_response =
     \<lparr>statusCode = 200, headers = json_headers,
      response_body = JSON_stringify
        [(js ''status'', JString (js ''success'')),
         (js ''message'', JString (js ''Form submitted successfully!''))]\<rparr>"

text \<open>The \<^verbatim>\<open>catch\<close> block.\<close>

definition error_response :: "env \<Rightarrow> exn \<Rightarrow> response" where
  "error_response ev error =
     \<lparr>statusCode = 500, headers = json_headers,
      response_body = JSON_stringify
        [(js ''status'', JString (js ''error'')),
         (js ''message'', JString (js ''Internal server error. Please try again.'')),
         (js ''error'',
            if NODE_ENV ev = Some (js ''development'') then JString (message error)
            else JUndefined)]\<rparr>"

definition createTransporter :: "runtime \<Rightarrow> env \<Rightarrow> exn + (mail_options \<Rightarrow> exn + jsval)" where
  "createTransporter rt ev =
     nodemailer_createTransporter rt
       \<lparr>service = js ''gmail'', auth_user = MAIL_USERNAME ev, auth_pass = MAIL_PASSWORD ev\<rparr>"

text \<open>
  From the validation to the response, the same in both versions of the handler.
  The second component lists the messages handed to \<^verbatim>\<open>sendMail\<close>. \<open>default_to\<close> is
  the recipient when \<^verbatim>\<open>EMAIL_TO\<close> is not set.
\<close>

definition submit ::
  "jsstring \<Rightarrow> runtime \<Rightarrow> env \<Rightarrow> local_time \<Rightarrow> jsval \<Rightarrow> (exn + response) \<times> mail_options list" where
  "submit default_to rt ev now formData =
     (case validateFormData rt formData of
        Inl e \<Rightarrow> (Inl e, [])
      | Inr validationErrors \<Rightarrow>
          if length validationErrors > 0 then (Inr (validation_response validationErrors), [])
          else
            (case createTransporter rt ev of
               Inl e \<Rightarrow> (Inl e, [])
             | Inr sendMail \<Rightarrow>
                 (case buildEmailBody rt formData of
                    Inl e \<Rightarrow> (Inl e, [])
                  | Inr text \<Rightarrow>
                      (let mailOptions =
                             \<lparr>mail_from = MAIL_USERNAME ev,
                              mail_to = (if is_set (EMAIL_TO ev) then the (EMAIL_TO ev) else default_to),
                              mail_subject = buildEmailSubject now,
                              mail_text = text\<rparr>
                       in case sendMail mailOptions of
                            Inl e \<Rightarrow> (Inl e, [mailOptions])
                          | Inr result \<Rightarrow>
                              (case get_prop rt result (js ''messageId'') of
                                 Inl e \<Rightarrow> (Inl e, [mailOptions])
                               | Inr messageId \<Rightarrow> (Inr success_response, [mailOptions]))))))"

text \<open>The object built from \<^verbatim>\<open>new URLSearchParams(event.body)\<close>.\<close>

definition of_param :: "jsstring option \<Rightarrow> jsval" where
  "of_param x = (case x of None \<Rightarrow> JNull | Some s \<Rightarrow> JString s)"

definition urlencoded_form :: "runtime \<Rightarrow> event \<Rightarrow> jsval" where
  "urlencoded_form rt event =
     JObject
       [(js ''name'', of_param (URLSearchParams_get rt (event_body event) (js ''name''))),
        (js ''email'', of_param (URLSearchParams_get rt (event_body event) (js ''email''))),
        (js ''phone'', of_param (URLSearchParams_get rt (event_body event) (js ''phone''))),
        (js ''needs'', of_param (URLSearchParams_get rt (event_body event) (js ''needs'')))]"

text \<open>\<^verbatim>\<open>JSON.parse(event.body)\<close>: a \<^verbatim>\<open>null\<close> body is first converted to the text \<^verbatim>\<open>null\<close>.\<close>

definition parse_json_body :: "runtime \<Rightarrow> event \<Rightarrow> exn + jsval" where
  "parse_json_body rt event =
     JSON_parse rt (case event_body event of None \<Rightarrow> js ''null'' | Some s \<Rightarrow> s)"

text \<open>
  The step ``Parse form data'' of \<^verbatim>\<open>netlify/functions/submit-form.js\<close>: JSON when the
  content type says so, URL-encoded otherwise (also without a content type).
\<close>

definition parse_form_data :: "runtime \<Rightarrow> event \<Rightarrow> exn + jsval" where
  "parse_form_data rt event =
     (if (case content_type event of
            None \<Rightarrow> False
          | Some ct \<Rightarrow> includes_js ct (js ''application/json''))
      then parse_json_body rt event
      else Inr (urlencoded_form rt event))"

text \<open>The \<^verbatim>\<open>try\<close> block of \<^verbatim>\<open>netlify/functions/submit-form.js\<close>.\<close>

definition try_block ::
  "runtime \<Rightarrow> env \<Rightarrow> local_time \<Rightarrow> event \<Rightarrow> (exn + response) \<times> mail_options list" where
  "try_block rt ev now event =
     (if \<not> is_set (MAIL_USERNAME ev) \<or> \<not> is_set (MAIL_PASSWORD ev)
      then (Inl (Error (js ''Missing required environment variables'')), [])
      else
        (case parse_form_data rt event of
           Inl e \<Rightarrow> (Inl e, [])
         | Inr formData \<Rightarrow> submit (js ''default@example.com'') rt ev now formData))"

text \<open>
  \<^verbatim>\<open>exports.handler\<close> of \<^verbatim>\<open>netlify/functions/submit-form.js\<close>: the response and the
  messages handed to \<^verbatim>\<open>sendMail\<close>. The calls of \<^verbatim>\<open>log\<close> write to the console only
  and are left out.
\<close>

definition handler ::
  "runtime \<Rightarrow> env \<Rightarrow> local_time \<Rightarrow> event \<Rightarrow> response \<times> mail_options list" where
  "handler rt ev now event =
     (if httpMethod event = js ''OPTIONS'' then (options_response, [])
      else if httpMethod event \<noteq> js ''POST'' then (method_not_allowed_response, [])
      else
        (case try_block rt ev now event of
           (Inr r, sent) \<Rightarrow> (r, sent)
         | (Inl error, sent) \<Rightarrow> (error_response ev error, sent)))"

text \<open>
  The later version of the handler, with the multipart branch (the second file of
  \<^verbatim>\<open>src/unnamed/part_000\<close>; the first file there is an earlier version, without the
  check of the environment, the debug detail and the logging, and is not modelled).
  \<^verbatim>\<open>contentType.split("boundary=")[1]\<close> is the second piece, if there is one, and the
  test \<^verbatim>\<open>if (boundary)\<close> refuses an empty one; \<^verbatim>\<open>body.split\<close> fails on a
  \<^verbatim>\<open>null\<close> body.
\<close>

definition parse_multipart_body :: "runtime \<Rightarrow> jsstring \<Rightarrow> event \<Rightarrow> exn + jsval" where
  "parse_multipart_body rt contentType event =
     (let pieces = split_js (js ''boundary='') contentType;
          boundary = (if 1 < length pieces then Some (pieces ! 1) else None)
      in if is_set boundary then
           (case event_body event of
              None \<Rightarrow> Inl (Error (engine_message rt (Cannot_read_property JNull (js ''split''))))
            | Some b \<Rightarrow> Inr (parseMultipartFormData b (the boundary)))
         else Inl (Error (js ''No boundary found in multipart data'')))"

text \<open>
  The step ``Parse form data based on content type'' of the later version;
  \<^verbatim>\<open>event.headers["content-type"] || ""\<close> is the content type.
\<close>

definition parse_form_data_multipart :: "runtime \<Rightarrow> event \<Rightarrow> exn + jsval" where
  "parse_form_data_multipart rt event =
     (let contentType = (if is_set (content_type event) then the (content_type event) else [])
      in if includes_js contentType (js ''application/json'')
         then parse_json_body rt event
         else if includes_js contentType (js ''application/x-www-form-urlencoded'')
         then Inr (urlencoded_form rt event)
         else if includes_js contentType (js ''multipart/form-data'')
         then parse_multipart_body rt contentType event
         else Inr (urlencoded_form rt event))"

definition try_block_multipart ::
  "runtime \<Rightarrow> env \<Rightarrow> local_time \<Rightarrow> event \<Rightarrow> (exn + response) \<times> mail_options list" where
  "try_block_multipart rt ev now event =
     (if \<not> is_set (MAIL_USERNAME ev) \<or> \<not> is_set (MAIL_PASSWORD ev)
      then (Inl (Error (js ''Missing required environment variables'')), [])
      else
        (case parse_form_data_multipart rt event of
           Inl e \<Rightarrow> (Inl e, [])
         | Inr formData \<Rightarrow> submit (js ''default@example.com'') rt ev now formData))"

definition handler_multipart ::
  "runtime \<Rightarrow> env \<Rightarrow> local_time \<Rightarrow> event \<Rightarrow> response \<times> mail_options list" where
  "handler_multipart rt ev now event =
     (if httpMethod event = js ''OPTIONS'' then (options_response, [])
      else if httpMethod event \<noteq> js ''POST'' then (method_not_allowed_response, [])
      else
        (case try_block_multipart rt ev now event of
           (Inr r, sent) \<Rightarrow> (r, sent)
         | (Inl error, sent) \<Rightarrow> (error_response ev error, sent)))"

section \<open>Inputs of the specification and of the examples\<close>

text \<open>
  A field of the specification's FormSubmission: a string, or nothing (absent, or the
  \<^verbatim>\<open>null\<close> of a missing URL parameter).
\<close>

definition form_field :: "jsval \<Rightarrow> bool" where
  "form_field v = (case v of JUndefined \<Rightarrow> True | JNull \<Rightarrow> True | JString s \<Rightarrow> True | _ \<Rightarrow> False)"

definition is_form_submission :: "jsval \<Rightarrow> bool" where
  "is_form_submission data =
     (case data of
        JObject ps \<Rightarrow>
          list_all (\<lambda>k. form_field (case map_of ps k of None \<Rightarrow> JUndefined | Some v \<Rightarrow> v))
            [js ''name'', js ''email'', js ''phone'', js ''needs'']
      | _ \<Rightarrow> False)"

text \<open>
  A part of a multipart body as a browser writes a text field, from the end of the
  delimiter line to the line break before the next delimiter; and the body of the two
  fields \<^verbatim>\<open>name\<close> and \<^verbatim>\<open>email\<close> with the values \<open>v1\<close> and \<open>v2\<close>.
\<close>

definition form_part :: "jsstring \<Rightarrow> jsstring \<Rightarrow> jsstring" where
  "form_part field v =
     crlf @ js ''Content-Disposition: form-data; name='' @ [quote] @ field @ [quote] @
     crlf @ crlf @ v @ crlf"

definition multipart_body :: "jsstring \<Rightarrow> jsstring \<Rightarrow> jsstring \<Rightarrow> jsstring" where
  "multipart_body boundary v1 v2 =
     (js ''--'' @ boundary) @ form_part (js ''name'') v1 @
     (js ''--'' @ boundary) @ form_part (js ''email'') v2 @
     (js ''--'' @ boundary) @ js ''--'' @ crlf"

text \<open>A text in which no delimiter starts: no two dashes in a row and no dash at the end.\<close>

fun no_dash_pair :: "jsstring \<Rightarrow> bool" where
  "no_dash_pair [] = True"
| "no_dash_pair [c] = (c \<noteq> 0x2D)"
| "no_dash_pair (c # c' # cs) = ((c \<noteq> 0x2D \<or> c' \<noteq> 0x2D) \<and> no_dash_pair (c' # cs))"

text \<open>
  The text of the message for the four converted fields: the template of
  \<^verbatim>\<open>buildEmailBody\<close> without the line break before it and the line break and two
  spaces after it.
\<close>

definition body_text :: "jsstring \<Rightarrow> jsstring \<Rightarrow> jsstring \<Rightarrow> jsstring \<Rightarrow> jsstring" where
  "body_text name email phone needs =
     js ''New Form Submission Received\<newline>\<newline>Details:\<newline>Name: '' @ name @
     js ''\<newline>Email: '' @ email @
     js ''\<newline>Phone: '' @ phone @
     js ''\<newline>Insurance Needs: '' @ needs @
     js ''\<newline>\<newline>Please follow up with the customer as needed.''"

text \<open>
  The timestamp as the specification words it, \<^verbatim>\<open>DDMMYYYYHHmm\<close>: every field in
  decimal at its fixed width, with leading zeros.
\<close>

definition decimal_digit :: "nat \<Rightarrow> code_unit" where
  "decimal_digit d = 0x30 + of_nat d"

primrec fixed_width :: "nat \<Rightarrow> nat \<Rightarrow> jsstring" where
  "fixed_width 0 n = []"
| "fixed_width (Suc w) n = fixed_width w (n div 10) @ [decimal_digit (n mod 10)]"

definition DDMMYYYYHHmm :: "local_time \<Rightarrow> jsstring" where
  "DDMMYYYYHHmm now =
     fixed_width 2 (nat (getDate now)) @ fixed_width 2 (nat (getMonth now + 1)) @
     fixed_width 4 (nat (getFullYear now)) @
     fixed_width 2 (nat (getHours now)) @ fixed_width 2 (nat (getMinutes now))"

text \<open>The two members that every body of a 500 response has.\<close>

definition fixed_members :: "(jsstring \<times> jsval) list" where
  "fixed_members =
     [(js ''status'', JString (js ''error'')),
      (js ''message'', JString (js ''Internal server error. Please try again.''))]"

text \<open>A member of a JSON response body, as the client reads it.\<close>

fun json_member :: "body \<Rightarrow> jsstring \<Rightarrow> jsval option" where
  "json_member (Json members) k = map_of members k"
| "json_member (Text t) k = None"

text \<open>
  A runtime for the examples: the JSON parser knows \<^verbatim>\<open>null\<close> only, the validators
  accept one address and one number, the transport accepts every message.
\<close>

definition stub_runtime :: runtime where
  "stub_runtime =
     \<lparr>engine_message = (\<lambda>e. js ''TypeError''),
      JSON_parse = (\<lambda>s. if s = js ''null'' then Inr JNull
                         else Inl (Error (js ''Unexpected end of JSON input''))),
      URLSearchParams_get = (\<lambda>b k. None),
      validator_isEmail = (\<lambda>v. case v of JString s \<Rightarrow> Inr (s = js ''jo@x.com'')
                                   | _ \<Rightarrow> Inl (Error (js ''Expected a string''))),
      validator_isMobilePhone = (\<lambda>v. case v of JString s \<Rightarrow> Inr (s = js ''+15555550123'')
                                   | _ \<Rightarrow> Inl (Error (js ''Expected a string''))),
      nodemailer_createTransporter =
        (\<lambda>c. Inr (\<lambda>m. Inr (JObject [(js ''messageId'', JString (js ''<1@x>''))])))\<rparr>"

definition example_time :: local_time where
  "example_time =
     \<lparr>getDate = 3, getMonth = 10, getFullYear = 2025, getHours = 14, getMinutes = 5\<rparr>"

definition debug_env :: env where
  "debug_env =
     \<lparr>MAIL_USERNAME = Some (js ''me@example.com''), MAIL_PASSWORD = Some (js ''secret''),
      EMAIL_TO = None, NODE_ENV = Some (js ''development'')\<rparr>"

definition production_env :: env where
  "production_env =
     \<lparr>MAIL_USERNAME = Some (js ''me@example.com''), MAIL_PASSWORD = Some (js ''secret''),
      EMAIL_TO = None, NODE_ENV = Some (js ''production'')\<rparr>"

definition post_json :: "jsstring option \<Rightarrow> event" where
  "post_json b =
     \<lparr>httpMethod = js ''POST'', content_type = Some (js ''application/json''), event_body = b\<rparr>"

definition example_submission :: jsval where
  "example_submission =
     JObject [(js ''name'', JString (js ''Jo'')),
              (js ''email'', JString (js ''jo@x.com'')),
              (js ''phone'', JString (js ''+15555550123''))]"

section \<open>The validator\<close>

lemma error_strings_distinct:
  "name_error \<noteq> email_error" "name_error \<noteq> phone_error" "email_error \<noteq> phone_error"
  by (simp_all add: name_error_def email_error_def phone_error_def js_def)

lemma validateFormData_Inr:
  assumes "validateFormData rt data = Inr errs"
  obtains bn be bp where "name_rule rt data = Inr bn" "email_rule rt data = Inr be"
    "phone_rule rt data = Inr bp"
    "errs = (if bn then [name_error] else []) @ (if be then [email_error] else [])
          @ (if bp then [phone_error] else [])"
  using assms unfolding validateFormData_def Let_def
  by (auto split: sum.splits if_splits)

lemma validateFormData_rules:
  assumes "name_rule rt data = Inr bn" "email_rule rt data = Inr be" "phone_rule rt data = Inr bp"
  shows "validateFormData rt data =
    Inr ((if bn then [name_error] else []) @ (if be then [email_error] else [])
          @ (if bp then [phone_error] else []))"
  using assms unfolding validateFormData_def Let_def by simp

lemma length_trim_le: "length (trim s) \<le> length s"
proof -
  have "length (dropWhile is_ws (rev (dropWhile is_ws s))) \<le> length (rev (dropWhile is_ws s))"
    by (rule length_dropWhile_le)
  also have "\<dots> \<le> length s" by (simp add: length_dropWhile_le)
  finally show ?thesis by (simp add: trim_def)
qed

lemma name_rule_form_field:
  assumes "get_prop rt data (js ''name'') = Inr n" "form_field n"
  shows "name_rule rt data = Inr (\<not> truthy n \<or> (\<exists>s. n = JString s \<and> length (trim s) < 2))"
  using assms by (cases n) (simp_all add: name_rule_def form_field_def)

lemma email_rule_answer:
  assumes "get_prop rt data (js ''email'') = Inr m" "truthy m \<Longrightarrow> validator_isEmail rt m = Inr ok"
  shows "email_rule rt data = Inr (\<not> truthy m \<or> \<not> ok)"
  using assms by (simp add: email_rule_def)

lemma phone_rule_answer:
  assumes "get_prop rt data (js ''phone'') = Inr p"
    "truthy p \<Longrightarrow> validator_isMobilePhone rt p = Inr ok"
  shows "phone_rule rt data = Inr (\<not> truthy p \<or> \<not> ok)"
  using assms by (simp add: phone_rule_def)

lemma trim_Jo: "trim (js ''Jo'') = js ''Jo''"
  by (simp add: trim_def js_def is_ws_def)

lemma form_submission_validates:
  assumes "is_form_submission data"
    and "\<forall>s. \<exists>b. validator_isEmail rt (JString s) = Inr b"
    and "\<forall>s. \<exists>b. validator_isMobilePhone rt (JString s) = Inr b"
  shows "\<exists>errs. validateFormData rt data = Inr errs"
proof -
  from assms(1) obtain ps where data: "data = JObject ps"
    by (cases data) (simp_all add: is_form_submission_def)
  define field where "field k = (case map_of ps k of None \<Rightarrow> JUndefined | Some v \<Rightarrow> v)" for k
  have ff: "form_field (field (js ''name''))" "form_field (field (js ''email''))"
    "form_field (field (js ''phone''))"
    using assms(1) by (simp_all add: is_form_submission_def data field_def)
  have g: "get_prop rt data k = Inr (field k)" for k
    by (simp add: data field_def)
  have 1: "\<exists>b. name_rule rt data = Inr b"
    using name_rule_form_field [OF g ff(1)] by blast
  have 2: "\<exists>b. email_rule rt data = Inr b"
  proof (cases "field (js ''email'')")
    case (JString s)
    with assms(2) obtain b where "validator_isEmail rt (field (js ''email'')) = Inr b" by metis
    then show ?thesis using email_rule_answer [OF g] by blast
  qed (use ff(2) g in \<open>auto simp: form_field_def email_rule_def\<close>)
  have 3: "\<exists>b. phone_rule rt data = Inr b"
  proof (cases "field (js ''phone'')")
    case (JString s)
    with assms(3) obtain b where "validator_isMobilePhone rt (field (js ''phone'')) = Inr b"
      by metis
    then show ?thesis using phone_rule_answer [OF g] by blast
  qed (use ff(3) g in \<open>auto simp: form_field_def phone_rule_def\<close>)
  from 1 2 3 show ?thesis using validateFormData_rules by blast
qed

text \<open>
  Claim C2. The validator is a function of its input (and of the two functions of the
  \<^verbatim>\<open>validator\<close> package) that runs all three tests: on a submission whose name is a
  string or missing, and whose email and phone are answered by the package, the result
  lists the message of every test that fails, and of no other. On
  \<^verbatim>\<open>{name:"Jo", email:"jo@x.com", phone:"+15555550123"}\<close> the list is empty, the package
  accepting this address and this number.
\<close>

theorem validator_reports_every_violation:
  "(get_prop rt data (js ''name'') = Inr n \<and> form_field n \<and>
    get_prop rt data (js ''email'') = Inr m \<and> (truthy m \<longrightarrow> validator_isEmail rt m = Inr okm) \<and>
    get_prop rt data (js ''phone'') = Inr p \<and> (truthy p \<longrightarrow> validator_isMobilePhone rt p = Inr okp)
    \<longrightarrow> validateFormData rt data =
          Inr ((if \<not> truthy n \<or> (\<exists>s. n = JString s \<and> length (trim s) < 2) then [name_error] else [])
             @ (if \<not> truthy m \<or> \<not> okm then [email_error] else [])
             @ (if \<not> truthy p \<or> \<not> okp then [phone_error] else [])))
   \<and> (validator_isEmail rt (JString (js ''jo@x.com'')) = Inr True \<and>
      validator_isMobilePhone rt (JString (js ''+15555550123'')) = Inr True
      \<longrightarrow> validateFormData rt example_submission = Inr [])"
proof (intro conjI impI)
  assume a: "get_prop rt data (js ''name'') = Inr n \<and> form_field n \<and>
    get_prop rt data (js ''email'') = Inr m \<and> (truthy m \<longrightarrow> validator_isEmail rt m = Inr okm) \<and>
    get_prop rt data (js ''phone'') = Inr p \<and> (truthy p \<longrightarrow> validator_isMobilePhone rt p = Inr okp)"
  show "validateFormData rt data =
          Inr ((if \<not> truthy n \<or> (\<exists>s. n = JString s \<and> length (trim s) < 2) then [name_error] else [])
             @ (if \<not> truthy m \<or> \<not> okm then [email_error] else [])
             @ (if \<not> truthy p \<or> \<not> okp then [phone_error] else []))"
    using a validateFormData_rules [OF name_rule_form_field email_rule_answer phone_rule_answer,
        of rt data n m okm p okp]
    by simp
next
  assume v: "validator_isEmail rt (JString (js ''jo@x.com'')) = Inr True \<and>
      validator_isMobilePhone rt (JString (js ''+15555550123'')) = Inr True"
  have k: "js ''email'' \<noteq> js ''name''" "js ''phone'' \<noteq> js ''name''" "js ''phone'' \<noteq> js ''email''"
    by (simp_all add: js_def)
  have n: "name_rule rt example_submission = Inr False"
    by (simp add: name_rule_def example_submission_def trim_Jo) (simp add: js_def)
  have e: "email_rule rt example_submission = Inr False"
    using v k by (simp add: email_rule_def example_submission_def) (simp add: js_def)
  have p: "phone_rule rt example_submission = Inr False"
    using v k by (simp add: phone_rule_def example_submission_def) (simp add: js_def)
  show "validateFormData rt example_submission = Inr []"
    using validateFormData_rules [OF n e p] by simp
qed

theorem validator_reports_every_violation_witness:
  "validateFormData stub_runtime example_submission = Inr [] \<and>
   validateFormData stub_runtime (JObject [(js ''name'', JString (js ''J'')), (js ''phone'', JString (js ''12''))])
     = Inr [name_error, email_error, phone_error]"
proof -
  let ?d = "JObject [(js ''name'', JString (js ''J'')), (js ''phone'', JString (js ''12''))]"
  have k: "js ''email'' \<noteq> js ''name''" "js ''phone'' \<noteq> js ''name''" "js ''phone'' \<noteq> js ''email''"
    by (simp_all add: js_def)
  have 1: "get_prop stub_runtime ?d (js ''name'') = Inr (JString (js ''J''))"
    "get_prop stub_runtime ?d (js ''email'') = Inr JUndefined"
    "get_prop stub_runtime ?d (js ''phone'') = Inr (JString (js ''12''))"
    using k by simp_all
  have 2: "form_field (JString (js ''J''))" by (simp add: form_field_def)
  have 3: "validator_isMobilePhone stub_runtime (JString (js ''12'')) = Inr False"
    by (simp add: stub_runtime_def js_def)
  have 4: "validator_isEmail stub_runtime (JString (js ''jo@x.com'')) = Inr True \<and>
      validator_isMobilePhone stub_runtime (JString (js ''+15555550123'')) = Inr True"
    by (simp add: stub_runtime_def)
  have 5: "length (trim (js ''J'')) < 2"
    using length_trim_le [of "js ''J''"] by (simp add: js_def)
  show ?thesis
    using validator_reports_every_violation
      [of stub_runtime ?d "JString (js ''J'')" JUndefined True "JString (js ''12'')" False]
      1 2 3 4 5
    by simp
qed

text \<open>
  Claim C3. When the name is missing (absent or \<^verbatim>\<open>null\<close>) or a string of length less
  than 2, every result of the validation contains the name error; and on a
  FormSubmission, with validators that answer every string, there is a result.
\<close>

theorem short_name_is_reported:
  assumes "get_prop rt data (js ''name'') = Inr n"
    and "n = JUndefined \<or> n = JNull \<or> (\<exists>s. n = JString s \<and> length s < 2)"
  shows "(\<forall>errs. validateFormData rt data = Inr errs \<longrightarrow> name_error \<in> set errs) \<and>
         (is_form_submission data \<and>
          (\<forall>s. \<exists>b. validator_isEmail rt (JString s) = Inr b) \<and>
          (\<forall>s. \<exists>b. validator_isMobilePhone rt (JString s) = Inr b)
          \<longrightarrow> (\<exists>errs. validateFormData rt data = Inr errs \<and> name_error \<in> set errs))"
proof -
  have short: "length (trim s) < 2" if "length s < 2" for s
    using that length_trim_le [of s] by simp
  have ff: "form_field n"
    using assms(2) by (auto simp: form_field_def)
  have "name_rule rt data = Inr True"
    using name_rule_form_field [OF assms(1) ff] assms(2) short by auto
  then have 1: "\<forall>errs. validateFormData rt data = Inr errs \<longrightarrow> name_error \<in> set errs"
    by (auto elim!: validateFormData_Inr)
  then show ?thesis
    using form_submission_validates [of data rt] by blast
qed

theorem short_name_is_reported_witness:
  "validateFormData stub_runtime (JObject [(js ''name'', JString (js ''J''))])
     = Inr [name_error, email_error, phone_error] \<and>
   name_error \<in> set [name_error, email_error, phone_error]"
proof -
  let ?d = "JObject [(js ''name'', JString (js ''J''))]"
  have k: "js ''email'' \<noteq> js ''name''" "js ''phone'' \<noteq> js ''name''" "js ''needs'' \<noteq> js ''name''"
    by (simp_all add: js_def)
  have 1: "get_prop stub_runtime ?d (js ''name'') = Inr (JString (js ''J''))"
    by simp
  have 2: "JString (js ''J'') = JUndefined \<or> JString (js ''J'') = JNull \<or>
           (\<exists>s. JString (js ''J'') = JString s \<and> length s < 2)"
    by (simp add: js_def)
  have 3: "is_form_submission ?d"
    using k by (simp add: is_form_submission_def form_field_def)
  have 4: "\<forall>s. \<exists>b. validator_isEmail stub_runtime (JString s) = Inr b"
    "\<forall>s. \<exists>b. validator_isMobilePhone stub_runtime (JString s) = Inr b"
    by (simp_all add: stub_runtime_def)
  have 5: "validateFormData stub_runtime ?d = Inr [name_error, email_error, phone_error]"
    using k by (simp add: validateFormData_def name_rule_def email_rule_def phone_rule_def
        trim_def) (simp add: js_def)
  show ?thesis
    using short_name_is_reported [OF 1 2] 3 4 5 by simp
qed

text \<open>
  Claim C10. Every list the validator returns has at most 3 elements, each one of the
  three fixed messages, none twice, in the order name, email, phone; and it returns a
  list on every FormSubmission when the validators answer every string.
\<close>

theorem validation_errors_shape:
  "(\<forall>errs. validateFormData rt data = Inr errs \<longrightarrow>
      length errs \<le> 3 \<and> set errs \<subseteq> {name_error, email_error, phone_error} \<and>
      distinct errs \<and> subseq errs [name_error, email_error, phone_error]) \<and>
   (is_form_submission data \<and>
    (\<forall>s. \<exists>b. validator_isEmail rt (JString s) = Inr b) \<and>
    (\<forall>s. \<exists>b. validator_isMobilePhone rt (JString s) = Inr b)
    \<longrightarrow> (\<exists>errs. validateFormData rt data = Inr errs))"
proof -
  have shape: "length errs \<le> 3 \<and> set errs \<subseteq> {name_error, email_error, phone_error} \<and>
      distinct errs \<and> subseq errs [name_error, email_error, phone_error]"
    if "validateFormData rt data = Inr errs" for errs
  proof -
    from that obtain bn be bp where
      "errs = (if bn then [name_error] else []) @ (if be then [email_error] else [])
            @ (if bp then [phone_error] else [])"
      by (rule validateFormData_Inr)
    then show ?thesis
      using error_strings_distinct by (cases bn; cases be; cases bp) simp_all
  qed
  show ?thesis
    using shape form_submission_validates [of data rt] by blast
qed

theorem validation_errors_shape_witness:
  "validateFormData stub_runtime (JObject [(js ''email'', JString (js ''jo@x.com''))])
     = Inr [name_error, phone_error] \<and>
   length [name_error, phone_error] \<le> 3 \<and>
   distinct [name_error, phone_error] \<and>
   subseq [name_error, phone_error] [name_error, email_error, phone_error]"
proof -
  let ?d = "JObject [(js ''email'', JString (js ''jo@x.com''))]"
  have k: "js ''name'' \<noteq> js ''email''" "js ''phone'' \<noteq> js ''email''" "js ''needs'' \<noteq> js ''email''"
    by (simp_all add: js_def)
  have 3: "is_form_submission ?d"
    using k by (simp add: is_form_submission_def form_field_def)
  have 4: "\<forall>s. \<exists>b. validator_isEmail stub_runtime (JString s) = Inr b"
    "\<forall>s. \<exists>b. validator_isMobilePhone stub_runtime (JString s) = Inr b"
    by (simp_all add: stub_runtime_def)
  have 5: "validateFormData stub_runtime ?d = Inr [name_error, phone_error]"
    using k by (simp add: validateFormData_def name_rule_def email_rule_def phone_rule_def
        stub_runtime_def) (simp add: js_def)
  show ?thesis
    using validation_errors_shape [of stub_runtime ?d] 3 4 5 by simp
qed

section \<open>The handler's responses\<close>

lemma submit_result:
  "(\<exists>e sent. submit d rt ev now fd = (Inl e, sent)) \<or>
   (\<exists>errs. submit d rt ev now fd = (Inr (validation_response errs), [])) \<or>
   (\<exists>m. submit d rt ev now fd = (Inr success_response, [m]))"
  by (auto simp: submit_def Let_def split: sum.splits)

lemma submit_cases:
  obtains (thrown) e sent where "submit d rt ev now fd = (Inl e, sent)"
  | (invalid) errs where "submit d rt ev now fd = (Inr (validation_response errs), [])"
  | (sent) m where "submit d rt ev now fd = (Inr success_response, [m])"
  using submit_result [of d rt ev now fd] by blast

lemma try_block_cases:
  obtains (thrown) e sent where "try_block rt ev now event = (Inl e, sent)"
  | (invalid) errs where "try_block rt ev now event = (Inr (validation_response errs), [])"
  | (sent) m where "try_block rt ev now event = (Inr success_response, [m])"
proof (cases "\<not> is_set (MAIL_USERNAME ev) \<or> \<not> is_set (MAIL_PASSWORD ev)")
  case True
  then have "try_block rt ev now event =
    (Inl (Error (js ''Missing required environment variables'')), [])"
    by (simp add: try_block_def)
  then show ?thesis by (rule thrown)
next
  case False
  show ?thesis
  proof (cases "parse_form_data rt event")
    case (Inl e)
    with False have "try_block rt ev now event = (Inl e, [])"
      by (simp add: try_block_def)
    then show ?thesis by (rule thrown)
  next
    case (Inr fd)
    with False have eq: "try_block rt ev now event = submit (js ''default@example.com'') rt ev now fd"
      by (simp add: try_block_def)
    show ?thesis
      by (rule submit_cases [of "js ''default@example.com''" rt ev now fd])
         (use eq thrown invalid sent in auto)
  qed
qed

lemma try_block_multipart_cases:
  obtains (thrown) e sent where "try_block_multipart rt ev now event = (Inl e, sent)"
  | (invalid) errs where "try_block_multipart rt ev now event = (Inr (validation_response errs), [])"
  | (sent) m where "try_block_multipart rt ev now event = (Inr success_response, [m])"
proof (cases "\<not> is_set (MAIL_USERNAME ev) \<or> \<not> is_set (MAIL_PASSWORD ev)")
  case True
  then have "try_block_multipart rt ev now event =
    (Inl (Error (js ''Missing required environment variables'')), [])"
    by (simp add: try_block_multipart_def)
  then show ?thesis by (rule thrown)
next
  case False
  show ?thesis
  proof (cases "parse_form_data_multipart rt event")
    case (Inl e)
    with False have "try_block_multipart rt ev now event = (Inl e, [])"
      by (simp add: try_block_multipart_def)
    then show ?thesis by (rule thrown)
  next
    case (Inr fd)
    with False have eq: "try_block_multipart rt ev now event =
        submit (js ''default@example.com'') rt ev now fd"
      by (simp add: try_block_multipart_def)
    show ?thesis
      by (rule submit_cases [of "js ''default@example.com''" rt ev now fd])
         (use eq thrown invalid sent in auto)
  qed
qed

lemma response_facts:
  "statusCode method_not_allowed_response = 405" "headers method_not_allowed_response = json_headers"
  "statusCode (validation_response errs) = 400" "headers (validation_response errs) = json_headers"
  "statusCode success_response = 200" "headers success_response = json_headers"
  "statusCode (error_response ev e) = 500" "headers (error_response ev e) = json_headers"
  by (simp_all add: method_not_allowed_response_def validation_response_def
      success_response_def error_response_def)

lemma json_headers_members:
  "(js ''Content-Type'', js ''application/json'') \<in> set json_headers"
  "(js ''Access-Control-Allow-Origin'', js ''*'') \<in> set json_headers"
  by (simp_all add: json_headers_def)

lemma handler_cases:
  assumes "httpMethod event \<noteq> js ''OPTIONS''"
  shows "fst (handler rt ev now event) = method_not_allowed_response \<or>
         (\<exists>e. fst (handler rt ev now event) = error_response ev e) \<or>
         (\<exists>errs. fst (handler rt ev now event) = validation_response errs) \<or>
         fst (handler rt ev now event) = success_response"
proof (cases "httpMethod event = js ''POST''")
  case False
  with assms show ?thesis by (simp add: handler_def)
next
  case True
  show ?thesis
    by (rule try_block_cases [of rt ev now event]) (use assms True in \<open>auto simp: handler_def\<close>)
qed

lemma handler_multipart_cases:
  assumes "httpMethod event \<noteq> js ''OPTIONS''"
  shows "fst (handler_multipart rt ev now event) = method_not_allowed_response \<or>
         (\<exists>e. fst (handler_multipart rt ev now event) = error_response ev e) \<or>
         (\<exists>errs. fst (handler_multipart rt ev now event) = validation_response errs) \<or>
         fst (handler_multipart rt ev now event) = success_response"
proof (cases "httpMethod event = js ''POST''")
  case False
  with assms show ?thesis by (simp add: handler_multipart_def)
next
  case True
  show ?thesis
    by (rule try_block_multipart_cases [of rt ev now event])
       (use assms True in \<open>auto simp: handler_multipart_def\<close>)
qed

lemma json_response_ok:
  assumes "r = method_not_allowed_response \<or> (\<exists>e. r = error_response ev e) \<or>
         (\<exists>errs. r = validation_response errs) \<or> r = success_response"
  shows "(js ''Content-Type'', js ''application/json'') \<in> set (headers r) \<and>
         (js ''Access-Control-Allow-Origin'', js ''*'') \<in> set (headers r) \<and>
         statusCode r \<in> {200, 400, 405, 500}"
  using assms json_headers_members by (auto simp: response_facts)

text \<open>
  Claim C7. Every response to a request whose method is not \<^verbatim>\<open>OPTIONS\<close> carries the
  headers \<^verbatim>\<open>Content-Type: application/json\<close> and \<^verbatim>\<open>Access-Control-Allow-Origin: *\<close>,
  and its status code is 200, 400, 405 or 500; in both versions of the handler.
\<close>

theorem non_options_responses:
  assumes "httpMethod event \<noteq> js ''OPTIONS''"
  shows "(js ''Content-Type'', js ''application/json'') \<in> set (headers (fst (handler rt ev now event))) \<and>
         (js ''Access-Control-Allow-Origin'', js ''*'') \<in> set (headers (fst (handler rt ev now event))) \<and>
         statusCode (fst (handler rt ev now event)) \<in> {200, 400, 405, 500} \<and>
         (js ''Content-Type'', js ''application/json'')
            \<in> set (headers (fst (handler_multipart rt ev now event))) \<and>
         (js ''Access-Control-Allow-Origin'', js ''*'')
            \<in> set (headers (fst (handler_multipart rt ev now event))) \<and>
         statusCode (fst (handler_multipart rt ev now event)) \<in> {200, 400, 405, 500}"
  using json_response_ok [OF handler_cases [OF assms]]
    json_response_ok [OF handler_multipart_cases [OF assms]]
  by blast

theorem non_options_responses_witness:
  "httpMethod \<lparr>httpMethod = js ''GET'', content_type = None, event_body = None\<rparr> \<noteq> js ''OPTIONS'' \<and>
   statusCode (fst (handler stub_runtime production_env example_time
      \<lparr>httpMethod = js ''GET'', content_type = None, event_body = None\<rparr>)) = 405 \<and>
   (js ''Content-Type'', js ''application/json'') \<in> set (headers (fst (handler stub_runtime
      production_env example_time \<lparr>httpMethod = js ''GET'', content_type = None, event_body = None\<rparr>)))"
proof -
  let ?e = "\<lparr>httpMethod = js ''GET'', content_type = None, event_body = None\<rparr>"
  have 1: "httpMethod ?e \<noteq> js ''OPTIONS''"
    by (simp add: js_def)
  have 2: "statusCode (fst (handler stub_runtime production_env example_time ?e)) = 405"
    by (simp add: handler_def response_facts) (simp add: js_def)
  show ?thesis
    using non_options_responses [OF 1, of stub_runtime production_env example_time] 1 2
    by simp
qed

lemma error_response_body:
  "error_response ev e =
     \<lparr>statusCode = 500, headers = json_headers,
      response_body = Json (fixed_members @
        (if NODE_ENV ev = Some (js ''development'') then [(js ''error'', JString (message e))]
         else []))\<rparr>"
  by (simp add: error_response_def JSON_stringify_def fixed_members_def)

lemma handler_thrown:
  assumes "httpMethod event = js ''POST''" "try_block rt ev now event = (Inl e, sent)"
  shows "handler rt ev now event = (error_response ev e, sent)"
proof -
  have "js ''POST'' \<noteq> js ''OPTIONS''" by (simp add: js_def)
  with assms show ?thesis by (simp add: handler_def)
qed

lemma handler_multipart_thrown:
  assumes "httpMethod event = js ''POST''" "try_block_multipart rt ev now event = (Inl e, sent)"
  shows "handler_multipart rt ev now event = (error_response ev e, sent)"
proof -
  have "js ''POST'' \<noteq> js ''OPTIONS''" by (simp add: js_def)
  with assms show ?thesis by (simp add: handler_multipart_def)
qed

lemma try_block_no_credentials:
  assumes "\<not> is_set (MAIL_USERNAME ev) \<or> \<not> is_set (MAIL_PASSWORD ev)"
  shows "try_block rt ev now event =
           (Inl (Error (js ''Missing required environment variables'')), [])"
    and "try_block_multipart rt ev now event =
           (Inl (Error (js ''Missing required environment variables'')), [])"
  using assms by (simp_all add: try_block_def try_block_multipart_def)

text \<open>
  Claim C1, as amended. A POST processed while \<^verbatim>\<open>MAIL_USERNAME\<close> or
  \<^verbatim>\<open>MAIL_PASSWORD\<close> is absent is answered with status 500 and nothing is handed to
  \<^verbatim>\<open>sendMail\<close>, whatever the request holds. The body is
  \<^verbatim>\<open>{status:"error", message:"Internal server error. Please try again."}\<close> when
  \<^verbatim>\<open>NODE_ENV\<close> is not \<^verbatim>\<open>development\<close>; in development it has the third member
  \<^verbatim>\<open>error:"Missing required environment variables"\<close>.
\<close>

theorem missing_credentials_response:
  assumes "httpMethod event = js ''POST''"
    and "MAIL_USERNAME ev = None \<or> MAIL_PASSWORD ev = None"
  shows "handler rt ev now event =
           (\<lparr>statusCode = 500, headers = json_headers,
             response_body = Json (fixed_members @
               (if NODE_ENV ev = Some (js ''development'')
                then [(js ''error'', JString (js ''Missing required environment variables''))]
                else []))\<rparr>, []) \<and>
         handler_multipart rt ev now event = handler rt ev now event"
proof -
  have "\<not> is_set (MAIL_USERNAME ev) \<or> \<not> is_set (MAIL_PASSWORD ev)"
    using assms(2) by (auto simp: is_set_def)
  then show ?thesis
    using handler_thrown [OF assms(1) try_block_no_credentials(1)]
      handler_multipart_thrown [OF assms(1) try_block_no_credentials(2)]
    by (simp add: error_response_body)
qed

theorem missing_credentials_response_witness:
  "handler stub_runtime (production_env\<lparr>MAIL_PASSWORD := None\<rparr>) example_time (post_json None) =
     (\<lparr>statusCode = 500, headers = json_headers, response_body = Json fixed_members\<rparr>, [])"
proof -
  have 1: "httpMethod (post_json None) = js ''POST''"
    by (simp add: post_json_def)
  have 2: "MAIL_USERNAME (production_env\<lparr>MAIL_PASSWORD := None\<rparr>) = None \<or>
           MAIL_PASSWORD (production_env\<lparr>MAIL_PASSWORD := None\<rparr>) = None"
    by simp
  have 3: "NODE_ENV (production_env\<lparr>MAIL_PASSWORD := None\<rparr>) \<noteq> Some (js ''development'')"
    by (simp add: production_env_def js_def)
  show ?thesis
    using missing_credentials_response [OF 1 2, of stub_runtime example_time] 3 by simp
qed

text \<open>
  As stated, the claim gives the two-member body for every such POST; in development
  the body has three members.
\<close>

theorem missing_credentials_debug_body:
  "response_body (fst (handler stub_runtime (debug_env\<lparr>MAIL_USERNAME := None\<rparr>) example_time
      (post_json None))) =
     Json [(js ''status'', JString (js ''error'')),
           (js ''message'', JString (js ''Internal server error. Please try again.'')),
           (js ''error'', JString (js ''Missing required environment variables''))] \<and>
   response_body (fst (handler stub_runtime (debug_env\<lparr>MAIL_USERNAME := None\<rparr>) example_time
      (post_json None))) \<noteq>
     JSON_stringify [(js ''status'', JString (js ''error'')),
           (js ''message'', JString (js ''Internal server error. Please try again.''))]"
proof -
  have 1: "httpMethod (post_json None) = js ''POST''"
    by (simp add: post_json_def)
  have 2: "try_block stub_runtime (debug_env\<lparr>MAIL_USERNAME := None\<rparr>) example_time (post_json None)
        = (Inl (Error (js ''Missing required environment variables'')), [])"
    by (rule try_block_no_credentials) (simp add: is_set_def)
  have 3: "NODE_ENV (debug_env\<lparr>MAIL_USERNAME := None\<rparr>) = Some (js ''development'')"
    by (simp add: debug_env_def)
  show ?thesis
    using handler_thrown [OF 1 2] 3
    by (simp add: error_response_body fixed_members_def JSON_stringify_def)
qed

lemma json_content_type:
  assumes "content_type event = Some ct" "includes_js ct (js ''application/json'')"
  shows "parse_form_data rt event = parse_json_body rt event"
    and "parse_form_data_multipart rt event = parse_json_body rt event"
proof -
  show "parse_form_data rt event = parse_json_body rt event"
    using assms by (simp add: parse_form_data_def)
  have "js ''application/json'' \<noteq> []" by (simp add: js_def)
  with assms(2) have "ct \<noteq> []" by auto
  with assms show "parse_form_data_multipart rt event = parse_json_body rt event"
    by (simp add: parse_form_data_multipart_def is_set_def)
qed

lemma submit_null:
  "submit d rt ev now JNull =
     (Inl (Error (engine_message rt (Cannot_read_property JNull (js ''name'')))), [])"
  by (simp add: submit_def validateFormData_def name_rule_def)

text \<open>
  Claim C4, as amended. A POST with a JSON content type whose body \<^verbatim>\<open>JSON.parse\<close>
  rejects (the empty text, malformed JSON), or parses to \<^verbatim>\<open>null\<close> (no body at all), is
  answered with status 500, and nothing is handed to \<^verbatim>\<open>sendMail\<close>. The body is the
  fixed pair of members when \<^verbatim>\<open>NODE_ENV\<close> is not \<^verbatim>\<open>development\<close>; in development it
  has the member \<^verbatim>\<open>error\<close> as well, with the message of the failure.
\<close>

theorem malformed_json_response:
  assumes "httpMethod event = js ''POST''"
    and "content_type event = Some ct" and "includes_js ct (js ''application/json'')"
    and "parse_json_body rt event = Inl e \<or> parse_json_body rt event = Inr JNull"
  shows "handler rt ev now event =
           (\<lparr>statusCode = 500, headers = json_headers,
             response_body = Json (fixed_members @
               (if NODE_ENV ev = Some (js ''development'')
                then [(js ''error'', JString
                   (if \<not> is_set (MAIL_USERNAME ev) \<or> \<not> is_set (MAIL_PASSWORD ev)
                    then js ''Missing required environment variables''
                    else (case parse_json_body rt event of
                            Inl e \<Rightarrow> message e
                          | Inr v \<Rightarrow> engine_message rt (Cannot_read_property JNull (js ''name'')))))]
                else []))\<rparr>, []) \<and>
         handler_multipart rt ev now event = handler rt ev now event"
proof (cases "\<not> is_set (MAIL_USERNAME ev) \<or> \<not> is_set (MAIL_PASSWORD ev)")
  case True
  then show ?thesis
    using handler_thrown [OF assms(1) try_block_no_credentials(1)]
      handler_multipart_thrown [OF assms(1) try_block_no_credentials(2)]
    by (simp add: error_response_body)
next
  case False
  define detail where "detail = (case parse_json_body rt event of
      Inl e \<Rightarrow> message e
    | Inr v \<Rightarrow> engine_message rt (Cannot_read_property JNull (js ''name'')))"
  have 1: "try_block rt ev now event = (Inl (Error detail), [])"
    using False assms(4) json_content_type(1) [OF assms(2,3), of rt]
    by (cases e) (auto simp: try_block_def submit_null detail_def)
  have 2: "try_block_multipart rt ev now event = (Inl (Error detail), [])"
    using False assms(4) json_content_type(2) [OF assms(2,3), of rt]
    by (cases e) (auto simp: try_block_multipart_def submit_null detail_def)
  show ?thesis
    using False handler_thrown [OF assms(1) 1] handler_multipart_thrown [OF assms(1) 2]
    by (simp add: error_response_body detail_def)
qed

lemma stub_parse_empty:
  "parse_json_body stub_runtime (post_json (Some [])) =
     Inl (Error (js ''Unexpected end of JSON input''))"
  by (simp add: parse_json_body_def post_json_def stub_runtime_def js_def)

lemma includes_json: "includes_js (js ''application/json'') (js ''application/json'')"
  by (simp add: js_def)

theorem malformed_json_response_witness:
  "handler stub_runtime production_env example_time (post_json (Some [])) =
     (\<lparr>statusCode = 500, headers = json_headers, response_body = Json fixed_members\<rparr>, [])"
proof -
  have 1: "httpMethod (post_json (Some [])) = js ''POST''"
    "content_type (post_json (Some [])) = Some (js ''application/json'')"
    by (simp_all add: post_json_def)
  have 2: "parse_json_body stub_runtime (post_json (Some [])) =
             Inl (Error (js ''Unexpected end of JSON input'')) \<or>
           parse_json_body stub_runtime (post_json (Some [])) = Inr JNull"
    using stub_parse_empty by simp
  have 3: "NODE_ENV production_env \<noteq> Some (js ''development'')"
    by (simp add: production_env_def js_def)
  show ?thesis
    using malformed_json_response [OF 1 includes_json 2, of production_env example_time] 3
    by simp
qed

text \<open>
  As stated, the claim gives the fixed body for every such POST; in development the body
  carries the parser's message.
\<close>

theorem malformed_json_debug_body:
  "response_body (fst (handler stub_runtime debug_env example_time (post_json (Some [])))) =
     Json [(js ''status'', JString (js ''error'')),
           (js ''message'', JString (js ''Internal server error. Please try again.'')),
           (js ''error'', JString (js ''Unexpected end of JSON input''))] \<and>
   response_body (fst (handler stub_runtime debug_env example_time (post_json (Some [])))) \<noteq>
     JSON_stringify [(js ''status'', JString (js ''error'')),
           (js ''message'', JString (js ''Internal server error. Please try again.''))]"
proof -
  have 1: "httpMethod (post_json (Some [])) = js ''POST''"
    by (simp add: post_json_def)
  have "parse_form_data stub_runtime (post_json (Some [])) =
          Inl (Error (js ''Unexpected end of JSON input''))"
    using json_content_type(1) [OF _ includes_json, of "post_json (Some [])" stub_runtime]
      stub_parse_empty
    by (simp add: post_json_def)
  then have 2: "try_block stub_runtime debug_env example_time (post_json (Some [])) =
          (Inl (Error (js ''Unexpected end of JSON input'')), [])"
    by (simp add: try_block_def debug_env_def is_set_def js_def)
  have 3: "NODE_ENV debug_env = Some (js ''development'')"
    by (simp add: debug_env_def)
  show ?thesis
    using handler_thrown [OF 1 2] 3
    by (simp add: error_response_body fixed_members_def JSON_stringify_def)
qed

lemma stub_try_block_empty:
  assumes "is_set (MAIL_USERNAME ev)" "is_set (MAIL_PASSWORD ev)"
  shows "try_block stub_runtime ev example_time (post_json (Some [])) =
          (Inl (Error (js ''Unexpected end of JSON input'')), [])"
proof -
  have "parse_form_data stub_runtime (post_json (Some [])) =
          Inl (Error (js ''Unexpected end of JSON input''))"
    using json_content_type(1) [OF _ includes_json, of "post_json (Some [])" stub_runtime]
      stub_parse_empty
    by (simp add: post_json_def)
  with assms show ?thesis
    by (simp add: try_block_def)
qed

lemma example_envs:
  "is_set (MAIL_USERNAME debug_env)" "is_set (MAIL_PASSWORD debug_env)"
  "is_set (MAIL_USERNAME production_env)" "is_set (MAIL_PASSWORD production_env)"
  "NODE_ENV debug_env = Some (js ''development'')"
  "NODE_ENV production_env \<noteq> Some (js ''development'')"
  by (simp_all add: debug_env_def production_env_def is_set_def js_def)

text \<open>
  Claim C8. A POST is answered with status 500 exactly when the \<^verbatim>\<open>try\<close> block throws.
  The body then has the member \<^verbatim>\<open>error\<close>, holding the message of the exception, if
  and only if \<^verbatim>\<open>NODE_ENV\<close> is \<^verbatim>\<open>development\<close>; and any two failing runs outside
  development get the same response, whatever their exceptions.
\<close>

theorem error_detail_iff_debug:
  assumes "httpMethod event = js ''POST''"
  shows "(statusCode (fst (handler rt ev now event)) = 500 \<longleftrightarrow>
            (\<exists>error sent. try_block rt ev now event = (Inl error, sent))) \<and>
         (\<forall>error sent. try_block rt ev now event = (Inl error, sent) \<longrightarrow>
            json_member (response_body (fst (handler rt ev now event))) (js ''error'') =
              (if NODE_ENV ev = Some (js ''development'') then Some (JString (message error))
               else None) \<and>
            (\<forall>rt' ev' now' event' error' sent'.
               httpMethod event' = js ''POST'' \<and>
               try_block rt' ev' now' event' = (Inl error', sent') \<and>
               NODE_ENV ev \<noteq> Some (js ''development'') \<and>
               NODE_ENV ev' \<noteq> Some (js ''development'')
               \<longrightarrow> fst (handler rt' ev' now' event') = fst (handler rt ev now event)))"
proof -
  have k: "js ''error'' \<noteq> js ''status''" "js ''error'' \<noteq> js ''message''"
    "js ''POST'' \<noteq> js ''OPTIONS''"
    by (simp_all add: js_def)
  have 0: "statusCode (fst (handler rt ev now event)) = 500 \<longleftrightarrow>
            (\<exists>error sent. try_block rt ev now event = (Inl error, sent))"
    by (rule try_block_cases [of rt ev now event])
       (use assms k(3) in \<open>auto simp: handler_def response_facts\<close>)
  have 1: "fst (handler rt ev now event) = error_response ev error"
    if "try_block rt ev now event = (Inl error, sent)" for error sent
    using handler_thrown [OF assms that] by simp
  have 2: "json_member (response_body (error_response ev error)) (js ''error'') =
           (if NODE_ENV ev = Some (js ''development'') then Some (JString (message error))
            else None)" for error
    using k by (simp add: error_response_body fixed_members_def)
  have 3: "fst (handler rt' ev' now' event') = error_response ev error"
    if "httpMethod event' = js ''POST''" "try_block rt' ev' now' event' = (Inl error', sent')"
      "NODE_ENV ev \<noteq> Some (js ''development'')" "NODE_ENV ev' \<noteq> Some (js ''development'')"
    for rt' ev' now' event' error' sent' error
    using handler_thrown [OF that(1,2)] that(3,4) by (simp add: error_response_body)
  show ?thesis
  proof (intro conjI allI impI)
    show "statusCode (fst (handler rt ev now event)) = 500 \<longleftrightarrow>
            (\<exists>error sent. try_block rt ev now event = (Inl error, sent))"
      by (rule 0)
  next
    fix error sent
    assume t: "try_block rt ev now event = (Inl error, sent)"
    show "json_member (response_body (fst (handler rt ev now event))) (js ''error'') =
              (if NODE_ENV ev = Some (js ''development'') then Some (JString (message error))
               else None)"
      using 1 [OF t] 2 by simp
  next
    fix error sent rt' ev' now' event' error' sent'
    assume t: "try_block rt ev now event = (Inl error, sent)"
      and "httpMethod event' = js ''POST'' \<and>
               try_block rt' ev' now' event' = (Inl error', sent') \<and>
               NODE_ENV ev \<noteq> Some (js ''development'') \<and>
               NODE_ENV ev' \<noteq> Some (js ''development'')"
    then show "fst (handler rt' ev' now' event') = fst (handler rt ev now event)"
      using 1 [OF t] 3 by simp
  qed
qed

theorem error_detail_iff_debug_witness:
  "json_member (response_body (fst (handler stub_runtime debug_env example_time
       (post_json (Some []))))) (js ''error'') =
     Some (JString (js ''Unexpected end of JSON input'')) \<and>
   json_member (response_body (fst (handler stub_runtime production_env example_time
       (post_json (Some []))))) (js ''error'') = None \<and>
   fst (handler stub_runtime (production_env\<lparr>MAIL_PASSWORD := None\<rparr>) example_time
       (post_json None)) =
   fst (handler stub_runtime production_env example_time (post_json (Some [])))"
proof -
  have p: "httpMethod (post_json b) = js ''POST''" for b
    by (simp add: post_json_def)
  have 1: "try_block stub_runtime debug_env example_time (post_json (Some [])) =
          (Inl (Error (js ''Unexpected end of JSON input'')), [])"
    by (rule stub_try_block_empty) (rule example_envs)+
  have 2: "try_block stub_runtime production_env example_time (post_json (Some [])) =
          (Inl (Error (js ''Unexpected end of JSON input'')), [])"
    by (rule stub_try_block_empty) (rule example_envs)+
  have 3: "try_block stub_runtime (production_env\<lparr>MAIL_PASSWORD := None\<rparr>) example_time
             (post_json None) =
          (Inl (Error (js ''Missing required environment variables'')), [])"
    by (rule try_block_no_credentials) (simp add: is_set_def)
  have 4: "NODE_ENV (production_env\<lparr>MAIL_PASSWORD := None\<rparr>) \<noteq> Some (js ''development'')"
    using example_envs(6) by simp
  note dbg = error_detail_iff_debug
      [of "post_json (Some [])" stub_runtime debug_env example_time, OF p,
        THEN conjunct2, rule_format, OF 1, THEN conjunct1]
  note prod = error_detail_iff_debug
      [of "post_json (Some [])" stub_runtime production_env example_time, OF p,
        THEN conjunct2, rule_format, OF 2]
  have 5: "fst (handler stub_runtime (production_env\<lparr>MAIL_PASSWORD := None\<rparr>) example_time
       (post_json None)) =
     fst (handler stub_runtime production_env example_time (post_json (Some [])))"
    by (rule prod [THEN conjunct2, rule_format]) (use p 3 4 example_envs(6) in simp)
  show ?thesis
    using dbg prod [THEN conjunct1] 5 example_envs(5,6) by simp
qed

section \<open>The message formatter\<close>

lemma trim_core:
  assumes "\<not> is_ws a" "\<not> is_ws b" "\<forall>c\<in>set l. is_ws c" "\<forall>c\<in>set r. is_ws c"
  shows "trim (l @ a # m @ b # r) = a # m @ [b]"
proof -
  have 1: "dropWhile is_ws (l @ a # m @ b # r) = a # m @ b # r"
    using assms(1,3) by simp
  have 2: "rev (a # m @ b # r) = rev r @ b # rev m @ [a]"
    by simp
  have "dropWhile is_ws (rev r @ b # rev m @ [a]) = dropWhile is_ws (b # rev m @ [a])"
    using assms(4) by (intro dropWhile_append2) simp
  then have 3: "dropWhile is_ws (rev r @ b # rev m @ [a]) = b # rev m @ [a]"
    using assms(2) by simp
  show ?thesis
    unfolding trim_def 1 2 3 by simp
qed

lemma template_trimmed:
  "trim (js ''\<newline>New Form Submission Received\<newline>\<newline>Details:\<newline>Name: '' @ name @
           js ''\<newline>Email: '' @ email @
           js ''\<newline>Phone: '' @ phone @
           js ''\<newline>Insurance Needs: '' @ needs @
           js ''\<newline>\<newline>Please follow up with the customer as needed.\<newline>  '')
   = body_text name email phone needs"
proof -
  let ?m = "js ''ew Form Submission Received\<newline>\<newline>Details:\<newline>Name: '' @ name @
           js ''\<newline>Email: '' @ email @
           js ''\<newline>Phone: '' @ phone @
           js ''\<newline>Insurance Needs: '' @ needs @
           js ''\<newline>\<newline>Please follow up with the customer as needed''"
  have h: "js ''\<newline>New Form Submission Received\<newline>\<newline>Details:\<newline>Name: '' =
        [0x0A] @ 0x4E # js ''ew Form Submission Received\<newline>\<newline>Details:\<newline>Name: ''"
    by (simp add: js_def)
  have t: "js ''\<newline>\<newline>Please follow up with the customer as needed.\<newline>  '' =
        js ''\<newline>\<newline>Please follow up with the customer as needed'' @ 0x2E # [0x0A, 0x20, 0x20]"
    by (simp add: js_def)
  have "trim ([0x0A] @ 0x4E # ?m @ 0x2E # [0x0A, 0x20, 0x20]) = 0x4E # ?m @ [0x2E]"
    by (rule trim_core) (simp_all add: is_ws_def)
  moreover have "0x4E # ?m @ [0x2E] = body_text name email phone needs"
    by (simp add: body_text_def js_def)
  ultimately show ?thesis
    unfolding h t by simp
qed

lemma field_keys_distinct:
  "js ''name'' \<noteq> js ''needs''" "js ''email'' \<noteq> js ''needs''" "js ''phone'' \<noteq> js ''needs''"
  by (simp_all add: js_def)

lemma buildEmailBody_text:
  assumes "get_prop rt formData (js ''name'') = Inr n" and "To_String rt n = Inr name"
    and "get_prop rt formData (js ''email'') = Inr m" and "To_String rt m = Inr email"
    and "get_prop rt formData (js ''phone'') = Inr p" and "To_String rt p = Inr phone"
    and "get_prop rt formData (js ''needs'') = Inr d"
    and "To_String rt (needs_or_default d) = Inr needs"
  shows "buildEmailBody rt formData = Inr (body_text name email phone needs)"
  using assms by (simp add: buildEmailBody_def template_trimmed)

text \<open>
  Claim C9. In the message text a \<^verbatim>\<open>needs\<close> that is falsy (absent, \<^verbatim>\<open>null\<close>, the
  empty string, \<^verbatim>\<open>false\<close>, zero) is written \<^verbatim>\<open>Not specified\<close>, and the text is the
  one of the same submission without the property; a non-empty string is written as
  it is.
\<close>

theorem needs_not_specified:
  assumes "get_prop rt formData (js ''name'') = Inr n" and "To_String rt n = Inr name"
    and "get_prop rt formData (js ''email'') = Inr m" and "To_String rt m = Inr email"
    and "get_prop rt formData (js ''phone'') = Inr p" and "To_String rt p = Inr phone"
    and "get_prop rt formData (js ''needs'') = Inr d"
  shows "(\<not> truthy d \<longrightarrow>
            buildEmailBody rt formData = Inr (body_text name email phone (js ''Not specified''))) \<and>
         (\<forall>s. d = JString s \<and> s \<noteq> [] \<longrightarrow>
            buildEmailBody rt formData = Inr (body_text name email phone s)) \<and>
         (\<forall>ps. formData = JObject ps \<and> \<not> truthy d \<longrightarrow>
            buildEmailBody rt (JObject (AList.delete (js ''needs'') ps)) =
            buildEmailBody rt formData)"
proof (intro conjI allI impI)
  assume "\<not> truthy d"
  then show "buildEmailBody rt formData = Inr (body_text name email phone (js ''Not specified''))"
    by (intro buildEmailBody_text [OF assms]) (simp add: needs_or_default_def)
next
  fix s assume "d = JString s \<and> s \<noteq> []"
  then show "buildEmailBody rt formData = Inr (body_text name email phone s)"
    by (intro buildEmailBody_text [OF assms]) (simp add: needs_or_default_def)
next
  fix ps assume a: "formData = JObject ps \<and> \<not> truthy d"
  let ?fd = "JObject (AList.delete (js ''needs'') ps)"
  have g: "get_prop rt ?fd (js ''name'') = Inr n" "get_prop rt ?fd (js ''email'') = Inr m"
    "get_prop rt ?fd (js ''phone'') = Inr p" "get_prop rt ?fd (js ''needs'') = Inr JUndefined"
    using a assms(1,3,5) field_keys_distinct by (simp_all add: delete_conv)
  have "buildEmailBody rt ?fd = Inr (body_text name email phone (js ''Not specified''))"
    by (rule buildEmailBody_text [OF g(1) assms(2) g(2) assms(4) g(3) assms(6) g(4)])
       (simp add: needs_or_default_def)
  moreover have "buildEmailBody rt formData =
      Inr (body_text name email phone (js ''Not specified''))"
    using a by (intro buildEmailBody_text [OF assms]) (simp add: needs_or_default_def)
  ultimately show "buildEmailBody rt ?fd = buildEmailBody rt formData"
    by simp
qed

theorem needs_not_specified_witness:
  "buildEmailBody stub_runtime
     (JObject [(js ''name'', JString (js ''Jo'')), (js ''email'', JString (js ''jo@x.com'')),
               (js ''phone'', JString (js ''+15555550123'')), (js ''needs'', JString [])]) =
     Inr (body_text (js ''Jo'') (js ''jo@x.com'') (js ''+15555550123'') (js ''Not specified'')) \<and>
   buildEmailBody stub_runtime
     (JObject [(js ''name'', JString (js ''Jo'')), (js ''email'', JString (js ''jo@x.com'')),
               (js ''phone'', JString (js ''+15555550123'')), (js ''needs'', JString [])]) =
   buildEmailBody stub_runtime example_submission"
proof -
  let ?ps = "[(js ''name'', JString (js ''Jo'')), (js ''email'', JString (js ''jo@x.com'')),
               (js ''phone'', JString (js ''+15555550123'')), (js ''needs'', JString [])]"
  have k: "js ''email'' \<noteq> js ''name''" "js ''phone'' \<noteq> js ''name''" "js ''phone'' \<noteq> js ''email''"
    by (simp_all add: js_def)
  have g: "get_prop stub_runtime (JObject ?ps) (js ''name'') = Inr (JString (js ''Jo''))"
    "get_prop stub_runtime (JObject ?ps) (js ''email'') = Inr (JString (js ''jo@x.com''))"
    "get_prop stub_runtime (JObject ?ps) (js ''phone'') = Inr (JString (js ''+15555550123''))"
    "get_prop stub_runtime (JObject ?ps) (js ''needs'') = Inr (JString [])"
    using k field_keys_distinct by simp_all
  have d: "JObject (AList.delete (js ''needs'') ?ps) = example_submission"
    using field_keys_distinct by (simp add: example_submission_def AList.delete_eq)
  note w = needs_not_specified [OF g(1) To_String.simps(5) g(2) To_String.simps(5)
      g(3) To_String.simps(5) g(4)]
  show ?thesis
    using w [THEN conjunct1] w [THEN conjunct2, THEN conjunct2, rule_format, of ?ps] d
    by simp
qed

lemma digits_lt_10: "n < 10 \<Longrightarrow> digits n = [decimal_digit n]"
  by (subst digits.simps) (simp add: decimal_digit_def)

lemma digits_step: "10 \<le> n \<Longrightarrow> digits n = digits (n div 10) @ [decimal_digit (n mod 10)]"
  by (subst digits.simps) (simp add: decimal_digit_def)

lemma digits_lt_100:
  assumes "10 \<le> n" "n < 100"
  shows "digits n = [decimal_digit (n div 10), decimal_digit (n mod 10)]"
proof -
  have "n div 10 < 10" using assms by simp
  then show ?thesis using assms(1) by (simp add: digits_step digits_lt_10)
qed

lemma digits_four:
  assumes "1000 \<le> n" "n < 10000"
  shows "digits n = [decimal_digit (n div 1000), decimal_digit (n div 100 mod 10),
                     decimal_digit (n div 10 mod 10), decimal_digit (n mod 10)]"
proof -
  have 1: "digits n = digits (n div 10) @ [decimal_digit (n mod 10)]"
    using assms by (intro digits_step) simp
  have 2: "digits (n div 10) = digits (n div 100) @ [decimal_digit (n div 10 mod 10)]"
    using assms digits_step [of "n div 10"] by (simp add: div_mult2_eq [symmetric])
  have 3: "digits (n div 100) = [decimal_digit (n div 1000), decimal_digit (n div 100 mod 10)]"
    using assms digits_lt_100 [of "n div 100"] by (simp add: div_mult2_eq [symmetric])
  show ?thesis by (simp add: 1 2 3)
qed

lemma fixed_width_2: "fixed_width 2 n = [decimal_digit (n div 10 mod 10), decimal_digit (n mod 10)]"
  by (simp add: numeral_2_eq_2)

lemma fixed_width_4:
  "fixed_width 4 n = [decimal_digit (n div 1000 mod 10), decimal_digit (n div 100 mod 10),
                      decimal_digit (n div 10 mod 10), decimal_digit (n mod 10)]"
proof -
  have e: "(4::nat) = Suc (Suc (Suc (Suc 0)))" by simp
  show ?thesis by (subst e) (simp add: div_mult2_eq [symmetric])
qed

lemma two_digits:
  assumes "0 \<le> i" "i < 100"
  shows "padStart 2 (js ''0'') (String_of_int i) = fixed_width 2 (nat i)"
proof (cases "nat i < 10")
  case True
  then have "digits (nat i) = [decimal_digit (nat i)]" by (rule digits_lt_10)
  moreover have "decimal_digit 0 = 0x30" by (simp add: decimal_digit_def)
  ultimately show ?thesis
    using assms True
    by (simp add: padStart_def String_of_int_def fixed_width_2 js_def)
next
  case False
  then have "digits (nat i) = [decimal_digit (nat i div 10), decimal_digit (nat i mod 10)]"
    using assms by (intro digits_lt_100) simp_all
  moreover have "nat i div 10 mod 10 = nat i div 10"
    using assms by simp
  ultimately show ?thesis
    using assms by (simp add: padStart_def String_of_int_def fixed_width_2)
qed

lemma four_digits:
  assumes "1000 \<le> y" "y \<le> 9999"
  shows "String_of_int y = fixed_width 4 (nat y)"
proof -
  have "digits (nat y) = [decimal_digit (nat y div 1000), decimal_digit (nat y div 100 mod 10),
                     decimal_digit (nat y div 10 mod 10), decimal_digit (nat y mod 10)]"
    using assms by (intro digits_four) simp_all
  moreover have "nat y div 1000 mod 10 = nat y div 1000"
    using assms by simp
  ultimately show ?thesis
    using assms by (simp add: String_of_int_def fixed_width_4)
qed

lemma decimal_digit_range:
  assumes "d < 10"
  shows "0x30 \<le> decimal_digit d \<and> decimal_digit d \<le> 0x39"
proof -
  from assms have "d \<in> {0, 1, 2, 3, 4, 5, 6, 7, 8, 9}" by auto
  then show ?thesis by (auto simp: decimal_digit_def)
qed

lemma fixed_width_digits:
  "c \<in> set (fixed_width w n) \<Longrightarrow> 0x30 \<le> c \<and> c \<le> 0x39"
  by (induction w arbitrary: n) (auto simp: decimal_digit_range)

lemma length_fixed_width: "length (fixed_width w n) = w"
  by (induction w arbitrary: n) simp_all

text \<open>
  Claim C6, as amended. At a local time whose year has four digits (1000 to 9999) the
  subject is the fixed prefix followed by 12 digits: day, month, hour and minute at
  width 2 and the year at width 4, in the order \<^verbatim>\<open>DDMMYYYYHHmm\<close>.
\<close>

theorem subject_timestamp:
  assumes "valid_time now" and "1000 \<le> getFullYear now" and "getFullYear now \<le> 9999"
  shows "buildEmailSubject now =
           js ''New Form Submission - Insurance Quote Request #'' @ DDMMYYYYHHmm now \<and>
         length (DDMMYYYYHHmm now) = 12 \<and>
         (\<forall>c \<in> set (DDMMYYYYHHmm now). 0x30 \<le> c \<and> c \<le> 0x39)"
proof -
  have "padStart 2 (js ''0'') (String_of_int (getDate now)) = fixed_width 2 (nat (getDate now))"
    "padStart 2 (js ''0'') (String_of_int (getMonth now + 1)) = fixed_width 2 (nat (getMonth now + 1))"
    "padStart 2 (js ''0'') (String_of_int (getHours now)) = fixed_width 2 (nat (getHours now))"
    "padStart 2 (js ''0'') (String_of_int (getMinutes now)) = fixed_width 2 (nat (getMinutes now))"
    using assms(1) by (simp_all add: valid_time_def two_digits)
  moreover have "String_of_int (getFullYear now) = fixed_width 4 (nat (getFullYear now))"
    using assms(2,3) by (rule four_digits)
  ultimately have "buildEmailSubject now =
      js ''New Form Submission - Insurance Quote Request #'' @ DDMMYYYYHHmm now"
    by (simp add: buildEmailSubject_def DDMMYYYYHHmm_def subject_prefix_def)
  moreover have "length (DDMMYYYYHHmm now) = 12"
    by (simp add: DDMMYYYYHHmm_def length_fixed_width)
  moreover have "\<forall>c \<in> set (DDMMYYYYHHmm now). 0x30 \<le> c \<and> c \<le> 0x39"
    using fixed_width_digits by (auto simp: DDMMYYYYHHmm_def)
  ultimately show ?thesis by blast
qed

lemma example_time_valid: "valid_time example_time"
  by (simp add: valid_time_def example_time_def)

theorem subject_timestamp_witness:
  "buildEmailSubject example_time =
     js ''New Form Submission - Insurance Quote Request #031120251405''"
proof -
  have "DDMMYYYYHHmm example_time = js ''031120251405''"
    by (simp add: DDMMYYYYHHmm_def example_time_def fixed_width_2 fixed_width_4
        decimal_digit_def js_def)
  moreover have "(1000::int) \<le> getFullYear example_time" "getFullYear example_time \<le> 9999"
    by (simp_all add: example_time_def)
  ultimately show ?thesis
    using subject_timestamp [OF example_time_valid]
    by (simp add: js_def)
qed

text \<open>
  As stated, the claim is about every instant; the year is not padded, and in the year
  10000, which a \<^verbatim>\<open>Date\<close> can hold, the token has 13 digits.
\<close>

theorem subject_year_10000:
  "valid_time (example_time\<lparr>getFullYear := 10000\<rparr>) \<and>
   buildEmailSubject (example_time\<lparr>getFullYear := 10000\<rparr>) =
     js ''New Form Submission - Insurance Quote Request #'' @ js ''0311100001405'' \<and>
   length (js ''0311100001405'') = 13"
proof -
  have "digits 10000 = js ''10000''"
    by (simp add: digits_step digits_lt_10 decimal_digit_def js_def)
  moreover have "padStart 2 (js ''0'') (String_of_int 3) = js ''03''"
    "padStart 2 (js ''0'') (String_of_int 11) = js ''11''"
    "padStart 2 (js ''0'') (String_of_int 14) = js ''14''"
    "padStart 2 (js ''0'') (String_of_int 5) = js ''05''"
    by (simp_all add: two_digits fixed_width_2 decimal_digit_def) (simp_all add: js_def)
  ultimately show ?thesis
    by (simp add: buildEmailSubject_def valid_time_def example_time_def String_of_int_def
        subject_prefix_def) (simp add: js_def)
qed

section \<open>The multipart parser\<close>

lemma split_js_Nil: "sep \<noteq> [] \<Longrightarrow> split_js sep [] = [[]]"
  by (subst split_js.simps) simp

lemma split_js_match:
  "sep \<noteq> [] \<Longrightarrow> split_js sep (sep @ s) = [] # split_js sep s"
  by (subst split_js.simps) simp

lemma split_js_skip:
  "sep \<noteq> [] \<Longrightarrow> \<not> prefix sep (c # cs) \<Longrightarrow>
   split_js sep (c # cs) = (case split_js sep cs of [] \<Rightarrow> [[c]] | p # ps \<Rightarrow> (c # p) # ps)"
  by (subst split_js.simps) (simp split: list.splits)

text \<open>No delimiter starts inside a text without two dashes in a row or a dash at its end.\<close>

lemma split_js_header:
  assumes "no_dash_pair h" and "split_js (0x2D # 0x2D # b) s = p # ps"
  shows "split_js (0x2D # 0x2D # b) (h @ s) = (h @ p) # ps"
  using assms
proof (induction h rule: no_dash_pair.induct)
  case 1
  then show ?case by simp
next
  case (2 c)
  then have "\<not> prefix (0x2D # 0x2D # b) (c # s)" by simp
  with 2 show ?case by (simp add: split_js_skip)
next
  case (3 c c' cs)
  then have "\<not> prefix (0x2D # 0x2D # b) (c # c' # cs @ s)" by auto
  with 3 show ?case by (simp add: split_js_skip)
qed

text \<open>No delimiter starts inside a value that does not contain it, nor after it.\<close>

lemma includes_js_prefix: "prefix sub s \<Longrightarrow> includes_js s sub"
  by (cases s) auto

lemma split_js_value:
  assumes "\<not> includes_js v (0x2D # 0x2D # b)" and "0x0D \<notin> set b"
  shows "split_js (0x2D # 0x2D # b) (v @ crlf @ (0x2D # 0x2D # b) @ s) =
           (v @ crlf) # split_js (0x2D # 0x2D # b) s"
  using assms(1)
proof (induction v)
  case Nil
  have "split_js (0x2D # 0x2D # b) ((0x2D # 0x2D # b) @ s) = [] # split_js (0x2D # 0x2D # b) s"
    by (rule split_js_match) simp
  then show ?case
    by (simp add: crlf_def split_js_skip)
next
  case (Cons c cs)
  let ?d = "0x2D # 0x2D # b"
  have "\<not> prefix ?d ((c # cs) @ crlf @ ?d @ s)"
  proof
    assume "prefix ?d ((c # cs) @ crlf @ ?d @ s)"
    then consider "prefix ?d (c # cs)"
      | us where "?d = (c # cs) @ us" "prefix us (crlf @ ?d @ s)" "us \<noteq> []"
      unfolding prefix_append by (metis append_Nil2 prefix_order.eq_refl)
    then show False
    proof cases
      case 1
      then show ?thesis using Cons.prems includes_js_prefix by blast
    next
      case 2
      then have "hd us = 0x0D" by (cases us) (auto simp: crlf_def)
      with 2(3) have "0x0D \<in> set us" by (cases us) auto
      then have "(0x0D :: code_unit) \<in> set ?d" using 2(1) by (metis Un_iff set_append)
      with assms(2) show ?thesis by simp
    qed
  qed
  moreover have "\<not> includes_js cs ?d" using Cons.prems by simp
  ultimately show ?case
    using Cons.IH by (simp add: split_js_skip)
qed

lemma split_js_tail:
  assumes "b \<noteq> []" and "0x0D \<notin> set b"
  shows "split_js (0x2D # 0x2D # b) (js ''--'' @ crlf) = [js ''--'' @ crlf]"
proof -
  have "\<not> prefix b crlf"
    using assms by (cases b) (auto simp: crlf_def)
  then show ?thesis
    by (simp add: js_def crlf_def split_js_skip split_js_Nil)
qed

lemma form_part_header_free:
  "no_dash_pair (crlf @ js ''Content-Disposition: form-data; name='' @ [quote] @ js ''name'' @
      [quote] @ crlf @ crlf)"
  "no_dash_pair (crlf @ js ''Content-Disposition: form-data; name='' @ [quote] @ js ''email'' @
      [quote] @ crlf @ crlf)"
  by (simp_all add: crlf_def js_def quote_def)

lemma split_multipart_body:
  assumes "b \<noteq> []" and "0x0D \<notin> set b"
    and "\<not> includes_js v1 (js ''--'' @ b)" and "\<not> includes_js v2 (js ''--'' @ b)"
  shows "split_js (js ''--'' @ b) (multipart_body b v1 v2) =
           [[], form_part (js ''name'') v1, form_part (js ''email'') v2, js ''--'' @ crlf]"
proof -
  let ?d = "0x2D # 0x2D # b"
  let ?h1 = "crlf @ js ''Content-Disposition: form-data; name='' @ [quote] @ js ''name'' @
      [quote] @ crlf @ crlf"
  let ?h2 = "crlf @ js ''Content-Disposition: form-data; name='' @ [quote] @ js ''email'' @
      [quote] @ crlf @ crlf"
  have d: "js ''--'' @ b = ?d" by (simp add: js_def)
  have p: "form_part (js ''name'') v1 = ?h1 @ v1 @ crlf" "form_part (js ''email'') v2 = ?h2 @ v2 @ crlf"
    by (simp_all add: form_part_def)
  have 3: "split_js ?d (js ''--'' @ crlf) = [js ''--'' @ crlf]"
    using assms(1,2) by (rule split_js_tail)
  have "split_js ?d (v2 @ crlf @ ?d @ js ''--'' @ crlf) = [v2 @ crlf, js ''--'' @ crlf]"
    using split_js_value [of v2 b "js ''--'' @ crlf"] assms(2,4) 3 d by simp
  from split_js_header [OF form_part_header_free(2) this]
  have 2: "split_js ?d (?h2 @ v2 @ crlf @ ?d @ js ''--'' @ crlf) =
             [?h2 @ v2 @ crlf, js ''--'' @ crlf]"
    by simp
  have "split_js ?d (v1 @ crlf @ ?d @ ?h2 @ v2 @ crlf @ ?d @ js ''--'' @ crlf) =
          [v1 @ crlf, ?h2 @ v2 @ crlf, js ''--'' @ crlf]"
    using split_js_value [of v1 b "?h2 @ v2 @ crlf @ ?d @ js ''--'' @ crlf"] assms(2,3) 2 d
    by simp
  from split_js_header [OF form_part_header_free(1) this]
  have 1: "split_js ?d (?h1 @ v1 @ crlf @ ?d @ ?h2 @ v2 @ crlf @ ?d @ js ''--'' @ crlf) =
             [?h1 @ v1 @ crlf, ?h2 @ v2 @ crlf, js ''--'' @ crlf]"
    by simp
  have "split_js ?d (?d @ ?h1 @ v1 @ crlf @ ?d @ ?h2 @ v2 @ crlf @ ?d @ js ''--'' @ crlf) =
          [] # split_js ?d (?h1 @ v1 @ crlf @ ?d @ ?h2 @ v2 @ crlf @ ?d @ js ''--'' @ crlf)"
    by (rule split_js_match) simp
  then show ?thesis
    unfolding multipart_body_def p d 1 by simp
qed


lemma lastIndexOf_short: "length s < length sub \<Longrightarrow> lastIndexOf s sub = - 1"
proof (induction s)
  case Nil
  then show ?case by auto
next
  case (Cons c cs)
  then have "\<not> prefix sub (c # cs)"
    using prefix_length_le by fastforce
  with Cons show ?case by simp
qed

lemma lastIndexOf_end: "sub \<noteq> [] \<Longrightarrow> lastIndexOf (xs @ sub) sub = int (length xs)"
proof (induction xs)
  case Nil
  then obtain c cs where sub: "sub = c # cs" by (cases sub) auto
  have "lastIndexOf cs sub = - 1"
    by (rule lastIndexOf_short) (simp add: sub)
  then show ?case by (simp add: sub)
next
  case (Cons x xs)
  then show ?case by simp
qed

lemma substring_middle:
  "substring (xs @ v @ ys) (int (length xs)) (int (length xs + length v)) = v"
proof -
  let ?len = "int (length (xs @ v @ ys))"
  have a: "min (max (int (length xs)) 0) ?len = int (length xs)"
    by simp
  have b: "min (max (int (length xs + length v)) 0) ?len = int (length xs + length v)"
    by simp
  have c: "min (int (length xs)) (int (length xs + length v)) = int (length xs)"
    "max (int (length xs)) (int (length xs + length v)) = int (length xs + length v)"
    by simp_all
  show ?thesis
    unfolding substring_def Let_def a b c by simp
qed

lemma parse_part_name:
  assumes "v \<noteq> []"
  shows "parse_part formData (form_part (js ''name'') v) =
           set_prop formData (js ''name'') (JString (trim v))"
proof -
  let ?h = "crlf @ js ''Content-Disposition: form-data; name='' @ [quote] @ js ''name'' @
      [quote] @ crlf @ crlf"
  define p where "p = ?h @ v @ crlf"
  have p: "form_part (js ''name'') v = p"
    by (simp add: form_part_def p_def)
  have len: "length ?h = 49"
    by (simp add: crlf_def js_def)
  have c: "includes_js p (js ''Content-Disposition: form-data'')"
    by (simp add: p_def crlf_def js_def)
  have m: "match_name p = Some (js ''name'')"
    by (simp add: p_def crlf_def js_def quote_def)
  have i: "indexOf p (crlf @ crlf) = 45"
    by (simp add: p_def crlf_def js_def quote_def)
  have "lastIndexOf ((?h @ v) @ crlf) crlf = int (length (?h @ v))"
    by (rule lastIndexOf_end) (simp add: crlf_def)
  then have l: "lastIndexOf p crlf = 49 + int (length v)"
    using len by (simp add: p_def)
  have s: "substring p 49 (49 + int (length v)) = v"
    using substring_middle [of ?h v crlf, unfolded len]
    by (simp only: of_nat_add of_nat_numeral p_def)
  show ?thesis
    unfolding p using assms by (simp add: parse_part_def c m i l s)
qed

lemma parse_part_email:
  assumes "v \<noteq> []"
  shows "parse_part formData (form_part (js ''email'') v) =
           set_prop formData (js ''email'') (JString (trim v))"
proof -
  let ?h = "crlf @ js ''Content-Disposition: form-data; name='' @ [quote] @ js ''email'' @
      [quote] @ crlf @ crlf"
  define p where "p = ?h @ v @ crlf"
  have p: "form_part (js ''email'') v = p"
    by (simp add: form_part_def p_def)
  have len: "length ?h = 50"
    by (simp add: crlf_def js_def)
  have c: "includes_js p (js ''Content-Disposition: form-data'')"
    by (simp add: p_def crlf_def js_def)
  have m: "match_name p = Some (js ''email'')"
    by (simp add: p_def crlf_def js_def quote_def)
  have i: "indexOf p (crlf @ crlf) = 46"
    by (simp add: p_def crlf_def js_def quote_def)
  have "lastIndexOf ((?h @ v) @ crlf) crlf = int (length (?h @ v))"
    by (rule lastIndexOf_end) (simp add: crlf_def)
  then have l: "lastIndexOf p crlf = 50 + int (length v)"
    using len by (simp add: p_def)
  have s: "substring p 50 (50 + int (length v)) = v"
    using substring_middle [of ?h v crlf, unfolded len]
    by (simp only: of_nat_add of_nat_numeral p_def)
  show ?thesis
    unfolding p using assms by (simp add: parse_part_def c m i l s)
qed

lemma parse_part_other:
  "parse_part formData [] = formData"
  "parse_part formData (js ''--'' @ crlf) = formData"
  by (simp_all add: parse_part_def js_def crlf_def)

lemma split_js_none:
  assumes "sep \<noteq> []" and "\<not> includes_js s sep"
  shows "split_js sep s = [s]"
  using assms(2)
proof (induction s)
  case Nil
  then show ?case using assms(1) by (simp add: split_js_Nil)
next
  case (Cons c cs)
  then show ?case using assms(1) by (simp add: split_js_skip)
qed

lemma split_js_no_first:
  assumes "sep \<noteq> []" and "hd sep \<notin> set h" and "split_js sep s = p # ps"
  shows "split_js sep (h @ s) = (h @ p) # ps"
  using assms(2)
proof (induction h)
  case Nil
  then show ?case using assms(3) by simp
next
  case (Cons c cs)
  then have "\<not> prefix sep (c # cs @ s)"
    using assms(1) by (cases sep) auto
  with Cons show ?case using assms(1) by (simp add: split_js_skip)
qed

lemma boundary_of_content_type:
  assumes "\<not> includes_js boundary (js ''boundary='')"
  shows "split_js (js ''boundary='') (js ''multipart/form-data; boundary='' @ boundary) =
           [js ''multipart/form-data; '', boundary]"
proof -
  let ?sep = "js ''boundary=''"
  have ne: "?sep \<noteq> []" by (simp add: js_def)
  have "split_js ?sep boundary = [boundary]"
    using ne assms by (rule split_js_none)
  then have 1: "split_js ?sep (?sep @ boundary) = [] # [boundary]"
    using split_js_match [OF ne, of boundary] by simp
  have 2: "hd ?sep \<notin> set (js ''multipart/form-data; '')"
    by (simp add: js_def)
  have "split_js ?sep (js ''multipart/form-data; '' @ ?sep @ boundary) =
          [js ''multipart/form-data; '' @ [], boundary]"
    using ne 2 1 by (rule split_js_no_first)
  moreover have "js ''multipart/form-data; boundary='' = js ''multipart/form-data; '' @ ?sep"
    by (simp add: js_def)
  ultimately show ?thesis by simp
qed

lemma parse_part_empty_value:
  "parse_part formData (form_part (js ''name'') []) = formData"
  "parse_part formData (form_part (js ''email'') []) = formData"
  by (simp_all add: parse_part_def form_part_def crlf_def js_def quote_def)

lemma parse_part_form_part:
  "parse_part formData (form_part (js ''name'') v) =
     (if v = [] then formData else set_prop formData (js ''name'') (JString (trim v)))"
  "parse_part formData (form_part (js ''email'') v) =
     (if v = [] then formData else set_prop formData (js ''email'') (JString (trim v)))"
  by (simp_all add: parse_part_empty_value parse_part_name parse_part_email)

lemma content_type_branch:
  "includes_js (js ''multipart/form-data; boundary='' @ boundary) (js ''application/json'') =
     includes_js boundary (js ''application/json'')"
  "includes_js (js ''multipart/form-data; boundary='' @ boundary)
       (js ''application/x-www-form-urlencoded'') =
     includes_js boundary (js ''application/x-www-form-urlencoded'')"
  "includes_js (js ''multipart/form-data; boundary='' @ boundary) (js ''multipart/form-data'')"
  by (simp_all add: js_def)

text \<open>
  Claim C5, as amended. Take a body of two parts, \<^verbatim>\<open>name\<close> and \<^verbatim>\<open>email\<close>, whose
  delimiter \<^verbatim>\<open>--boundary\<close> occurs nowhere inside the two values, the boundary being
  non-empty and free of carriage returns. The parser, given that boundary, returns the
  object that binds each field with a non-empty value to this value, trimmed, and
  leaves a field with an empty value unbound. The handler's parsing step returns the
  same object when the content type is exactly \<^verbatim>\<open>multipart/form-data; boundary=\<close>
  followed by the boundary, and the boundary contains none of \<^verbatim>\<open>boundary=\<close>,
  \<^verbatim>\<open>application/json\<close> and \<^verbatim>\<open>application/x-www-form-urlencoded\<close>.
\<close>

theorem multipart_two_fields:
  assumes "boundary \<noteq> []" and "0x0D \<notin> set boundary"
    and "\<not> includes_js v1 (js ''--'' @ boundary)" and "\<not> includes_js v2 (js ''--'' @ boundary)"
  shows "parseMultipartFormData (multipart_body boundary v1 v2) boundary =
           JObject ((if v1 = [] then [] else [(js ''name'', JString (trim v1))]) @
                    (if v2 = [] then [] else [(js ''email'', JString (trim v2))])) \<and>
         (content_type event = Some (js ''multipart/form-data; boundary='' @ boundary) \<and>
          event_body event = Some (multipart_body boundary v1 v2) \<and>
          \<not> includes_js boundary (js ''boundary='') \<and>
          \<not> includes_js boundary (js ''application/json'') \<and>
          \<not> includes_js boundary (js ''application/x-www-form-urlencoded'') \<longrightarrow>
          parse_form_data_multipart rt event =
            Inr (JObject ((if v1 = [] then [] else [(js ''name'', JString (trim v1))]) @
                          (if v2 = [] then [] else [(js ''email'', JString (trim v2))]))))"
proof -
  have k: "js ''name'' \<noteq> js ''__proto__''" "js ''email'' \<noteq> js ''__proto__''"
    "js ''email'' \<noteq> js ''name''"
    by (simp_all add: js_def)
  have 1: "parseMultipartFormData (multipart_body boundary v1 v2) boundary =
           JObject ((if v1 = [] then [] else [(js ''name'', JString (trim v1))]) @
                    (if v2 = [] then [] else [(js ''email'', JString (trim v2))]))"
    using k by (simp add: parseMultipartFormData_def split_multipart_body [OF assms]
        parse_part_other parse_part_form_part set_prop_def)
  have 2: "parse_form_data_multipart rt event =
            Inr (parseMultipartFormData (multipart_body boundary v1 v2) boundary)"
    if ct: "content_type event = Some (js ''multipart/form-data; boundary='' @ boundary)"
      and b: "event_body event = Some (multipart_body boundary v1 v2)"
      and free: "\<not> includes_js boundary (js ''boundary='')"
        "\<not> includes_js boundary (js ''application/json'')"
        "\<not> includes_js boundary (js ''application/x-www-form-urlencoded'')"
  proof -
    let ?ct = "js ''multipart/form-data; boundary='' @ boundary"
    have "?ct \<noteq> []" by (simp add: js_def)
    then have c: "(if is_set (content_type event) then the (content_type event) else []) = ?ct"
      using ct by (simp add: is_set_def)
    have p: "parse_multipart_body rt ?ct event =
               Inr (parseMultipartFormData (multipart_body boundary v1 v2) boundary)"
      using b assms(1)
      by (simp add: parse_multipart_body_def boundary_of_content_type [OF free(1)] is_set_def)
    show ?thesis
      unfolding parse_form_data_multipart_def c Let_def
      using free(2,3) p by (simp add: content_type_branch)
  qed
  show ?thesis
    using 1 2 by simp
qed

theorem multipart_two_fields_witness:
  "parseMultipartFormData (multipart_body (js ''X'') (js ''Jo'') (js '' jo@x.com '')) (js ''X'') =
     JObject [(js ''name'', JString (js ''Jo'')), (js ''email'', JString (js ''jo@x.com''))] \<and>
   parse_form_data_multipart stub_runtime
     \<lparr>httpMethod = js ''POST'', content_type = Some (js ''multipart/form-data; boundary=X''),
      event_body = Some (multipart_body (js ''X'') (js ''Jo'') (js '' jo@x.com ''))\<rparr> =
     Inr (JObject [(js ''name'', JString (js ''Jo'')), (js ''email'', JString (js ''jo@x.com''))])"
proof -
  let ?event = "\<lparr>httpMethod = js ''POST'',
      content_type = Some (js ''multipart/form-data; boundary=X''),
      event_body = Some (multipart_body (js ''X'') (js ''Jo'') (js '' jo@x.com ''))\<rparr>"
  have 1: "js ''X'' \<noteq> []" "0x0D \<notin> set (js ''X'')"
    "\<not> includes_js (js ''Jo'') (js ''--'' @ js ''X'')"
    "\<not> includes_js (js '' jo@x.com '') (js ''--'' @ js ''X'')"
    by (simp_all add: js_def)
  have 2: "trim (js '' jo@x.com '') = js ''jo@x.com''"
    by (simp add: trim_def is_ws_def js_def)
  have 4: "js ''multipart/form-data; boundary='' @ js ''X'' = js ''multipart/form-data; boundary=X''"
    by (simp add: js_def)
  have 3: "content_type ?event = Some (js ''multipart/form-data; boundary='' @ js ''X'') \<and>
    event_body ?event = Some (multipart_body (js ''X'') (js ''Jo'') (js '' jo@x.com '')) \<and>
    \<not> includes_js (js ''X'') (js ''boundary='') \<and>
    \<not> includes_js (js ''X'') (js ''application/json'') \<and>
    \<not> includes_js (js ''X'') (js ''application/x-www-form-urlencoded'')"
    unfolding 4 by (simp add: js_def)
  have 5: "js ''Jo'' \<noteq> []" "js '' jo@x.com '' \<noteq> []"
    by (simp_all add: js_def)
  note w = multipart_two_fields [OF 1, of ?event stub_runtime]
  show ?thesis
    using w [THEN conjunct1] w [THEN conjunct2, rule_format, OF 3] 5
    unfolding trim_Jo 2 by simp
qed

text \<open>
  As stated, the claim covers every value; a part with an empty value never passes the
  test \<^verbatim>\<open>valueStart < valueEnd\<close>, and its field stays unbound.
\<close>

theorem multipart_empty_value:
  "parseMultipartFormData (multipart_body (js ''X'') (js ''Jo'') []) (js ''X'') =
     JObject [(js ''name'', JString (js ''Jo''))] \<and>
   parseMultipartFormData (multipart_body (js ''X'') (js ''Jo'') []) (js ''X'') \<noteq>
     JObject [(js ''name'', JString (trim (js ''Jo''))), (js ''email'', JString (trim []))]"
proof -
  have 1: "js ''X'' \<noteq> []" "0x0D \<notin> set (js ''X'')"
    "\<not> includes_js (js ''Jo'') (js ''--'' @ js ''X'')"
    "\<not> includes_js [] (js ''--'' @ js ''X'')"
    by (simp_all add: js_def)
  have 2: "parse_part formData (form_part (js ''email'') []) = formData" for formData
    by (simp add: parse_part_def form_part_def crlf_def js_def quote_def)
  have 3: "js ''Jo'' \<noteq> []" "js ''name'' \<noteq> js ''__proto__''"
    by (simp_all add: js_def)
  show ?thesis
    by (simp add: parseMultipartFormData_def split_multipart_body [OF 1] parse_part_other
        parse_part_name [OF 3(1)] 2 set_prop_def 3(2) trim_Jo)
qed

end
